theory Spec2Isabelle
  imports Main "HOL-Library.Product_Lexorder"
begin

section \<open>The QA report importer (JSON\_DB\_Importer.py)\<close>

text \<open>
  A shallow embedding of \<^verbatim>\<open>JSON_DB_Importer.py\<close>: the discovery of the latest
  \<^verbatim>\<open>Week of YYYY-MM-DD\<close> folder, the two reference resolvers, the two document
  importers and the batch loop of \<^verbatim>\<open>process_folder\<close>.

  Strings are ASCII strings: \<^verbatim>\<open>str.strip\<close>, \<^verbatim>\<open>str.upper\<close> and the regular
  expression class \<^verbatim>\<open>\d\<close> are modelled on the ASCII range, where they act as below.
\<close>

subsection \<open>Static configuration\<close>

definition PROCESSED_PREFIX :: string where
  "PROCESSED_PREFIX = ''Stored-''"

definition FAILED_PREFIX :: string where
  "FAILED_PREFIX = ''BadData-''"

definition COMBINED_REPORT_FILENAME :: string where
  "COMBINED_REPORT_FILENAME = ''Combined_Analysis_Report.json''"

subsection \<open>Python string operations\<close>

definition startswith :: "string \<Rightarrow> string \<Rightarrow> bool" where
  \<comment> \<open>\<^verbatim>\<open>s.startswith(p)\<close>\<close>
  "startswith s p = (take (length p) s = p)"

definition endswith :: "string \<Rightarrow> string \<Rightarrow> bool" where
  \<comment> \<open>\<^verbatim>\<open>s.endswith(p)\<close>\<close>
  "endswith s p = (length p \<le> length s \<and> drop (length s - length p) s = p)"

fun contains :: "string \<Rightarrow> string \<Rightarrow> bool" where
  \<comment> \<open>\<^verbatim>\<open>needle in s\<close>, written \<open>contains needle s\<close>\<close>
  "contains needle [] = (needle = [])"
| "contains needle (c # cs) = (startswith (c # cs) needle \<or> contains needle cs)"

definition is_space :: "char \<Rightarrow> bool" where
  \<comment> \<open>the ASCII characters for which \<^verbatim>\<open>str.isspace\<close> holds\<close>
  "is_space c = ((of_char c :: nat) \<in> {9, 10, 11, 12, 13, 28, 29, 30, 31, 32})"

definition strip :: "string \<Rightarrow> string" where
  \<comment> \<open>\<^verbatim>\<open>s.strip()\<close>\<close>
  "strip s = rev (dropWhile is_space (rev (dropWhile is_space s)))"

definition upper_char :: "char \<Rightarrow> char" where
  "upper_char c =
     (if 97 \<le> (of_char c :: nat) \<and> (of_char c :: nat) \<le> 122
      then char_of ((of_char c :: nat) - 32) else c)"

definition upper :: "string \<Rightarrow> string" where
  \<comment> \<open>\<^verbatim>\<open>s.upper()\<close>\<close>
  "upper s = map upper_char s"

fun replace :: "string \<Rightarrow> string \<Rightarrow> string \<Rightarrow> string" where
  \<comment> \<open>\<^verbatim>\<open>s.replace(old, new)\<close> for a non-empty \<open>old\<close>, written \<open>replace old new s\<close>:
      every occurrence, left to right, without overlap\<close>
  "replace old new [] = []"
| "replace old new (c # cs) =
     (if old \<noteq> [] \<and> startswith (c # cs) old
      then new @ replace old new (drop (length old) (c # cs))
      else c # replace old new cs)"

definition is_digit :: "char \<Rightarrow> bool" where
  \<comment> \<open>\<^verbatim>\<open>\d\<close>\<close>
  "is_digit c = (48 \<le> (of_char c :: nat) \<and> (of_char c :: nat) \<le> 57)"

definition int_of_digits :: "string \<Rightarrow> nat" where
  "int_of_digits s = foldl (\<lambda>n c. 10 * n + ((of_char c :: nat) - 48)) 0 s"

subsection \<open>Finding the latest week folder\<close>

type_synonym date = "nat \<times> nat \<times> nat"
  \<comment> \<open>\<^verbatim>\<open>datetime.date\<close>: year, month, day; dates compare as these triples do\<close>

definition date_shape :: "string \<Rightarrow> bool" where
  \<comment> \<open>\<^verbatim>\<open>\d{4}-\d{2}-\d{2}\<close> against a whole string\<close>
  "date_shape g =
     (length g = 10 \<and> list_all is_digit (take 4 g) \<and> g ! 4 = CHR ''-''
      \<and> list_all is_digit (take 2 (drop 5 g)) \<and> g ! 7 = CHR ''-''
      \<and> list_all is_digit (drop 8 g))"

definition match_week_at :: "string \<Rightarrow> string option" where
  \<comment> \<open>\<^verbatim>\<open>Week of (\d{4}-\d{2}-\d{2})\<close> anchored at the start of \<open>s\<close>: group 1\<close>
  "match_week_at s =
     (if startswith s ''Week of '' \<and> date_shape (take 10 (drop 8 s))
      then Some (take 10 (drop 8 s)) else None)"

fun date_pattern_search :: "string \<Rightarrow> string option" where
  \<comment> \<open>\<^verbatim>\<open>date_pattern.search(item)\<close>: the leftmost match, its group 1\<close>
  "date_pattern_search [] = match_week_at []"
| "date_pattern_search (c # cs) =
     (case match_week_at (c # cs) of
        Some g \<Rightarrow> Some g
      | None \<Rightarrow> date_pattern_search cs)"

definition is_leap :: "nat \<Rightarrow> bool" where
  "is_leap y = (y mod 4 = 0 \<and> (y mod 100 \<noteq> 0 \<or> y mod 400 = 0))"

definition days_in_month :: "nat \<Rightarrow> nat \<Rightarrow> nat" where
  "days_in_month y m =
     (if m = 2 then (if is_leap y then 29 else 28)
      else if m \<in> {4, 6, 9, 11} then 30 else 31)"

definition strptime_date :: "string \<Rightarrow> date option" where
  \<comment> \<open>\<^verbatim>\<open>datetime.strptime(g, '%Y-%m-%d').date()\<close> on a string of the shape
      \<^verbatim>\<open>dddd-dd-dd\<close>; \<open>None\<close> is the \<^verbatim>\<open>ValueError\<close>\<close>
  "strptime_date g =
     (let y = int_of_digits (take 4 g);
          m = int_of_digits (take 2 (drop 5 g));
          d = int_of_digits (drop 8 g)
      in if 1 \<le> y \<and> 1 \<le> m \<and> m \<le> 12 \<and> 1 \<le> d \<and> d \<le> days_in_month y m
         then Some (y, m, d) else None)"

definition folder_date :: "string \<Rightarrow> date option" where
  \<comment> \<open>the date under which a directory entry joins \<^verbatim>\<open>week_folders\<close>, if it does\<close>
  "folder_date item =
     (case date_pattern_search item of
        None \<Rightarrow> None
      | Some g \<Rightarrow> strptime_date g)"

definition path_join :: "string \<Rightarrow> string \<Rightarrow> string" where
  \<comment> \<open>\<^verbatim>\<open>os.path.join(root, name)\<close> for a relative \<open>name\<close>\<close>
  "path_join root name =
     (if root = [] \<or> last root = CHR ''/'' then root @ name else root @ ''/'' @ name)"

definition sorted_reverse :: "('a \<Rightarrow> 'k::linorder) \<Rightarrow> 'a list \<Rightarrow> 'a list" where
  \<comment> \<open>\<^verbatim>\<open>sorted(xs, key=f, reverse=True)\<close>: descending and stable\<close>
  "sorted_reverse f xs = rev (sort_key f (rev xs))"

definition week_folders :: "string \<Rightarrow> (string \<times> bool) list \<Rightarrow> (date \<times> string) list" where
  \<comment> \<open>the loop over \<^verbatim>\<open>os.listdir(root_dir)\<close>; an entry is a name and whether
      \<^verbatim>\<open>os.path.isdir\<close> holds of it\<close>
  "week_folders root_dir entries =
     concat (map (\<lambda>(item, isdir).
        if isdir then (case folder_date item of
                         Some d \<Rightarrow> [(d, path_join root_dir item)]
                       | None \<Rightarrow> [])
        else []) entries)"

definition find_latest_week_folder :: "string \<Rightarrow> (string \<times> bool) list option \<Rightarrow> string option" where
  \<comment> \<open>the listing is \<open>None\<close> when \<^verbatim>\<open>os.listdir\<close> raises\<close>
  "find_latest_week_folder root_dir listing =
     (case listing of
        None \<Rightarrow> None
      | Some entries \<Rightarrow>
          (case sorted_reverse fst (week_folders root_dir entries) of
             [] \<Rightarrow> None
           | latest_folder # _ \<Rightarrow> Some (snd latest_folder)))"

subsection \<open>Documents and Python values\<close>

text \<open>
  What \<^verbatim>\<open>json.load\<close> returns: \<^verbatim>\<open>None\<close>, booleans, numbers, strings, lists and
  dictionaries (as their items, one per key). Non-integral numbers are left out.
\<close>

datatype json =
    JNull
  | JBool bool
  | JNum int
  | JStr string
  | JList "json list"
  | JDict "(string \<times> json) list"

datatype exn =
    AttributeError
  | TypeError
  | ValueError
  | OSError
  | JSONDecodeError
  | IntegrityError
  | OperationalError

definition result_bind :: "exn + 'a \<Rightarrow> ('a \<Rightarrow> exn + 'b) \<Rightarrow> exn + 'b" where
  \<comment> \<open>evaluate, then go on with the value; a raised exception goes through\<close>
  "result_bind m f = (case m of Inl e \<Rightarrow> Inl e | Inr x \<Rightarrow> f x)"

fun comprehension :: "('a \<Rightarrow> exn + 'b list) \<Rightarrow> 'a list \<Rightarrow> exn + 'b list" where
  \<comment> \<open>\<^verbatim>\<open>[e for x in xs if c]\<close>: \<open>f x\<close> is \<open>[e]\<close>, or \<open>[]\<close> when the condition fails,
      or the exception raised on the way\<close>
  "comprehension f [] = Inr []"
| "comprehension f (x # xs) =
     result_bind (f x) (\<lambda>ys. result_bind (comprehension f xs) (\<lambda>zs. Inr (ys @ zs)))"

fun truthy :: "json \<Rightarrow> bool" where
  "truthy JNull = False"
| "truthy (JBool b) = b"
| "truthy (JNum n) = (n \<noteq> 0)"
| "truthy (JStr s) = (s \<noteq> [])"
| "truthy (JList xs) = (xs \<noteq> [])"
| "truthy (JDict kvs) = (kvs \<noteq> [])"

fun dict_get :: "json \<Rightarrow> string \<Rightarrow> json \<Rightarrow> exn + json" where
  \<comment> \<open>\<^verbatim>\<open>d.get(k, default)\<close>; only a dictionary has \<^verbatim>\<open>get\<close>\<close>
  "dict_get (JDict kvs) k dflt = Inr (case map_of kvs k of Some v \<Rightarrow> v | None \<Rightarrow> dflt)"
| "dict_get _ k dflt = Inl AttributeError"

fun iter :: "json \<Rightarrow> exn + json list" where
  \<comment> \<open>\<^verbatim>\<open>for item in v\<close>: a list gives its items, a dictionary its keys, a string
      its characters; nothing else is iterable\<close>
  "iter (JList xs) = Inr xs"
| "iter (JDict kvs) = Inr (map (\<lambda>kv. JStr (fst kv)) kvs)"
| "iter (JStr s) = Inr (map (\<lambda>c. JStr [c]) s)"
| "iter _ = Inl TypeError"

fun str_strip :: "json \<Rightarrow> exn + string" where
  \<comment> \<open>\<^verbatim>\<open>v.strip()\<close>; only a string has \<^verbatim>\<open>strip\<close>\<close>
  "str_strip (JStr s) = Inr (strip s)"
| "str_strip _ = Inl AttributeError"

fun hashable :: "json \<Rightarrow> bool" where
  "hashable (JList xs) = False"
| "hashable (JDict kvs) = False"
| "hashable _ = True"

subsection \<open>The store, the file system and the calls that reach them\<close>

record agent_details =
  full_name :: string
  email :: "string option"
  extension :: string

record agent_row =
  AgentID :: nat
  AgentName :: string
  EmailAddress :: "string option"
  Extension :: string

record quality_point_row =
  QualityPointID :: nat
  QualityPointText :: string
  IsBonus :: nat

record individual_row =
  AnalysisID :: nat
  ia_AgentID :: nat
  ia_columns :: "json list"
    \<comment> \<open>TechDispatcherNameRaw to ConcludingRemarks\_Coaching, in the statement's order\<close>
  ia_ProcessingDateTime :: nat

record combined_row =
  CombinedAnalysisID :: nat
  ca_AgentID :: nat
  ca_columns :: "json list"
    \<comment> \<open>AnalysisPeriodNote to Snapshot\_NeutralCount, in the statement's order\<close>
  ca_ProcessingDateTime :: nat

type_synonym evaluation_item_row = "nat \<times> nat \<times> json \<times> json"
  \<comment> \<open>AnalysisID, QualityPointID, Finding, ExplanationSnippets\<close>

type_synonym quality_point_detail_row = "nat \<times> nat \<times> json \<times> json \<times> json \<times> json"
  \<comment> \<open>CombinedAnalysisID, QualityPointID, the three counts, TrendObservation\<close>

record database =
  Agents :: "agent_row list"
  QualityPointsMaster :: "quality_point_row list"
  IndividualCallAnalyses :: "individual_row list"
  IndividualEvaluationItems :: "evaluation_item_row list"
  CombinedAnalyses :: "combined_row list"
  CombinedAnalysisStrengths :: "(nat \<times> json) list"
  CombinedAnalysisDevelopmentAreas :: "(nat \<times> json) list"
  CombinedAnalysisCoachingFocus :: "(nat \<times> nat \<times> json) list"
    \<comment> \<open>CoachingFocusID, CombinedAnalysisID, AreaText\<close>
  CombinedAnalysisCoachingActions :: "(nat \<times> json) list"
  CombinedAnalysisQualityPointDetails :: "quality_point_detail_row list"

type_synonym path = "string \<times> string"
  \<comment> \<open>a file as \<^verbatim>\<open>os.walk\<close> gives it: directory and name. \<^verbatim>\<open>os.path.join\<close> of the two is
      the path, \<^verbatim>\<open>os.path.dirname\<close> and \<^verbatim>\<open>os.path.basename\<close> give them back.\<close>

datatype call =
    Connect
  | SelectAgent string
  | InsertAgent string
  | SelectQualityPoints "string list"
  | InsertQualityPoints "(string \<times> nat) list"
  | InsertIndividual
  | InsertEvaluationItems
  | InsertCombined
  | InsertStrengths
  | InsertDevelopmentAreas
  | InsertCoachingFocus
  | InsertCoachingActions
  | InsertQualityPointDetails
  | Commit
  | Rollback
  | OpenFile path
  | Move path string

text \<open>
  The world the importer runs in. \<open>db\<close> is what the connection sees (the committed rows
  and the open transaction's own writes), \<open>committed\<close> what persists. Keys are issued by
  the store from \<open>next_id\<close>. Every call to the store or the file system is recorded in
  \<open>trace\<close> and advances \<open>clock\<close>, which \<^verbatim>\<open>datetime.now()\<close> reads; \<open>faults\<close> says
  which calls (by their position in time) raise, and what: a lost connection, a
  constraint that a concurrent run made fail, a file that cannot be renamed.
  \<open>files\<close> is the walk of the target folder, each file with what
  \<^verbatim>\<open>json.load\<close> gives for it.
\<close>

record world =
  db :: database
  committed :: database
  next_id :: nat
  clock :: nat
  faults :: "nat \<Rightarrow> exn option"
  trace :: "call list"
  files :: "(path \<times> (exn + json)) list"

type_synonym 'a io = "world \<Rightarrow> (exn + 'a) \<times> world"

definition return :: "'a \<Rightarrow> 'a io" where
  "return x = (\<lambda>w. (Inr x, w))"

definition raise :: "exn \<Rightarrow> 'a io" where
  "raise e = (\<lambda>w. (Inl e, w))"

definition lift :: "exn + 'a \<Rightarrow> 'a io" where
  \<comment> \<open>a computation that touches neither store nor files\<close>
  "lift r = (\<lambda>w. (r, w))"

definition io_bind :: "'a io \<Rightarrow> ('a \<Rightarrow> 'b io) \<Rightarrow> 'b io" where
  "io_bind m f = (\<lambda>w. case m w of (Inl e, w') \<Rightarrow> (Inl e, w') | (Inr x, w') \<Rightarrow> f x w')"

definition perform :: "call \<Rightarrow> 'a io \<Rightarrow> 'a io" where
  \<comment> \<open>one call to the store or the file system\<close>
  "perform c f = (\<lambda>w.
     let w' = w\<lparr>clock := Suc (clock w), trace := trace w @ [c]\<rparr>
     in case faults w (clock w) of
          Some e \<Rightarrow> (Inl e, w')
        | None \<Rightarrow> f w')"

definition issue_ids :: "nat \<Rightarrow> 'a list \<Rightarrow> (nat \<times> 'a) list" where
  \<comment> \<open>the keys the store gives to a batch of new rows\<close>
  "issue_ids n xs = zip [n ..< n + length xs] xs"

definition select_agent :: "string \<Rightarrow> agent_row option io" where
  \<comment> \<open>\<^verbatim>\<open>SELECT AgentID FROM Agents WHERE Extension = ?\<close> and \<^verbatim>\<open>fetchone\<close>\<close>
  "select_agent ext = perform (SelectAgent ext)
     (\<lambda>w. (Inr (find (\<lambda>r. Extension r = ext) (Agents (db w))), w))"

definition insert_agent :: "string \<Rightarrow> string option \<Rightarrow> string \<Rightarrow> nat io" where
  \<comment> \<open>\<^verbatim>\<open>INSERT INTO Agents ... OUTPUT INSERTED.AgentID\<close> and \<^verbatim>\<open>fetchval\<close>\<close>
  "insert_agent name mail ext = perform (InsertAgent ext)
     (\<lambda>w. (Inr (next_id w),
            w\<lparr>db := (db w)\<lparr>Agents := Agents (db w) @
                    [\<lparr>AgentID = next_id w, AgentName = name, EmailAddress = mail, Extension = ext\<rparr>]\<rparr>,
              next_id := Suc (next_id w)\<rparr>))"

definition select_quality_points :: "string list \<Rightarrow> (string \<times> nat) list io" where
  \<comment> \<open>\<^verbatim>\<open>SELECT QualityPointText, QualityPointID ... WHERE QualityPointText IN (...)\<close>
      and \<^verbatim>\<open>fetchall\<close>\<close>
  "select_quality_points texts = perform (SelectQualityPoints texts)
     (\<lambda>w. (Inr (map (\<lambda>r. (QualityPointText r, QualityPointID r))
                  (filter (\<lambda>r. QualityPointText r \<in> set texts) (QualityPointsMaster (db w)))), w))"

definition insert_quality_points :: "(string \<times> nat) list \<Rightarrow> unit io" where
  \<comment> \<open>\<^verbatim>\<open>executemany("INSERT INTO QualityPointsMaster (QualityPointText, IsBonus) ...", params)\<close>\<close>
  "insert_quality_points params = perform (InsertQualityPoints params)
     (\<lambda>w. (Inr (),
            w\<lparr>db := (db w)\<lparr>QualityPointsMaster := QualityPointsMaster (db w) @
                    map (\<lambda>(i, (text, bonus)).
                           \<lparr>QualityPointID = i, QualityPointText = text, IsBonus = bonus\<rparr>)
                        (issue_ids (next_id w) params)\<rparr>,
              next_id := next_id w + length params\<rparr>))"

subsection \<open>The reference resolvers\<close>

definition get_or_create_agent :: "agent_details \<Rightarrow> nat option io" where
  \<comment> \<open>the \<^verbatim>\<open>except\<close> clause logs and raises the same exception again\<close>
  "get_or_create_agent details =
     (let agent_name = full_name details; ext = extension details
      in if agent_name = [] \<or> ext = [] then return None
         else io_bind (select_agent ext) (\<lambda>row.
                case row of
                  Some r \<Rightarrow> return (Some (AgentID r))
                | None \<Rightarrow> io_bind (insert_agent agent_name (email details) ext)
                            (\<lambda>i. return (Some i))))"

definition is_bonus :: "string \<Rightarrow> nat" where
  \<comment> \<open>\<^verbatim>\<open>1 if "[BONUS]" in text.upper() else 0\<close>\<close>
  "is_bonus text = (if contains ''[BONUS]'' (upper text) then 1 else 0)"

definition dict_update :: "(string \<rightharpoonup> nat) \<Rightarrow> (string \<times> nat) list \<Rightarrow> (string \<rightharpoonup> nat)" where
  \<comment> \<open>\<^verbatim>\<open>for row in cursor.fetchall(): qp_map[row.QualityPointText] = row.QualityPointID\<close>\<close>
  "dict_update m rows = fold (\<lambda>row m. m(fst row \<mapsto> snd row)) rows m"

definition sanitize :: "json list \<Rightarrow> exn + string list" where
  \<comment> \<open>\<^verbatim>\<open>{text.strip() for text in qp_texts if text}\<close>\<close>
  "sanitize qp_texts =
     result_bind
       (comprehension (\<lambda>text. if truthy text
                               then result_bind (str_strip text) (\<lambda>s. Inr [s])
                               else Inr []) qp_texts)
       (\<lambda>xs. Inr (remdups xs))"

definition resolved :: "(string \<rightharpoonup> nat) \<Rightarrow> json list \<Rightarrow> exn + (string \<times> nat) list" where
  \<comment> \<open>\<^verbatim>\<open>{orig_text: qp_map.get(orig_text.strip()) for orig_text in qp_texts
         if orig_text.strip() in qp_map}\<close>\<close>
  "resolved qp_map qp_texts =
     comprehension (\<lambda>orig_text.
        case orig_text of
          JStr t \<Rightarrow> (case qp_map (strip t) of Some i \<Rightarrow> Inr [(t, i)] | None \<Rightarrow> Inr [])
        | _ \<Rightarrow> Inl AttributeError) qp_texts"

definition get_or_create_quality_points :: "json list \<Rightarrow> (string \<times> nat) list io" where
  \<comment> \<open>\<open>qp_texts\<close> is a set, given as the list of its elements; the result is the
      dictionary, as its items. The \<^verbatim>\<open>except\<close> clause logs and raises the same
      exception again.\<close>
  "get_or_create_quality_points qp_texts =
     io_bind (lift (sanitize qp_texts)) (\<lambda>sanitized_qp_texts.
       if sanitized_qp_texts = [] then return []
       else
         io_bind (select_quality_points sanitized_qp_texts) (\<lambda>rows.
           let qp_map = dict_update Map.empty rows;
               new_qps = filter (\<lambda>text. qp_map text = None) sanitized_qp_texts
           in if new_qps \<noteq> [] then
                io_bind (insert_quality_points (map (\<lambda>text. (text, is_bonus text)) new_qps)) (\<lambda>_.
                io_bind (select_quality_points sanitized_qp_texts) (\<lambda>rows'.
                  lift (resolved (dict_update qp_map rows') qp_texts)))
              else lift (resolved qp_map qp_texts)))"

subsection \<open>The two document importers\<close>

definition gets :: "json \<Rightarrow> string list \<Rightarrow> exn + json list" where
  \<comment> \<open>\<^verbatim>\<open>d.get(k)\<close> for each of the keys, in turn\<close>
  "gets d keys = comprehension (\<lambda>k. result_bind (dict_get d k JNull) (\<lambda>v. Inr [v])) keys"

definition lookup_quality_point :: "(string \<times> nat) list \<Rightarrow> json \<Rightarrow> exn + nat option" where
  \<comment> \<open>\<^verbatim>\<open>qp_map.get(item.get('quality_point', '').strip())\<close>\<close>
  "lookup_quality_point qp_map item =
     result_bind (dict_get item ''quality_point'' (JStr [])) (\<lambda>qp.
     result_bind (str_strip qp) (\<lambda>label. Inr (map_of qp_map label)))"

definition insert_individual :: "nat \<Rightarrow> json list \<Rightarrow> nat \<Rightarrow> nat io" where
  \<comment> \<open>\<^verbatim>\<open>INSERT INTO IndividualCallAnalyses ... OUTPUT INSERTED.AnalysisID\<close>\<close>
  "insert_individual agent_id columns ts = perform InsertIndividual
     (\<lambda>w. (Inr (next_id w),
            w\<lparr>db := (db w)\<lparr>IndividualCallAnalyses := IndividualCallAnalyses (db w) @
                    [\<lparr>AnalysisID = next_id w, ia_AgentID = agent_id, ia_columns = columns,
                      ia_ProcessingDateTime = ts\<rparr>]\<rparr>,
              next_id := Suc (next_id w)\<rparr>))"

definition insert_evaluation_items :: "evaluation_item_row list \<Rightarrow> unit io" where
  "insert_evaluation_items rows = perform InsertEvaluationItems
     (\<lambda>w. (Inr (), w\<lparr>db := (db w)\<lparr>IndividualEvaluationItems :=
                           IndividualEvaluationItems (db w) @ rows\<rparr>\<rparr>))"

definition eval_params :: "nat \<Rightarrow> (string \<times> nat) list \<Rightarrow> json list \<Rightarrow> exn + evaluation_item_row list" where
  \<comment> \<open>the comprehension over \<^verbatim>\<open>detailed_evaluation\<close>; its condition is the truth value
      of the key looked up, so that no key and the key 0 both drop the item\<close>
  "eval_params analysis_id qp_map items =
     comprehension (\<lambda>item.
        result_bind (lookup_quality_point qp_map item) (\<lambda>k.
          case k of
            None \<Rightarrow> Inr []
          | Some qp_id \<Rightarrow>
              if qp_id = 0 then Inr []
              else result_bind (dict_get item ''finding'' JNull) (\<lambda>finding.
                   result_bind (dict_get item ''explanation_snippets'' JNull) (\<lambda>snippets.
                     Inr [(analysis_id, qp_id, finding, snippets)])))) items"

definition process_individual_json ::
  "json \<Rightarrow> path \<Rightarrow> nat \<Rightarrow> (string \<times> nat) list \<Rightarrow> nat \<Rightarrow> unit io" where
  "process_individual_json json_data file_path agent_id qp_map ts =
     io_bind (lift (dict_get json_data ''call_summary'' (JDict []))) (\<lambda>summary.
     io_bind (lift (dict_get json_data ''concluding_remarks'' (JDict []))) (\<lambda>remarks.
     io_bind (lift (gets summary [''tech_dispatcher_name''])) (\<lambda>c1.
     io_bind (lift (gets summary [''call_duration'', ''client_name'', ''client_facility_company'',
                ''ticket_number'', ''client_callback_number'', ''ticket_status_type'',
                ''call_subject_summary''])) (\<lambda>c2.
     io_bind (lift (gets remarks [''summary_positive_findings'', ''summary_negative_findings'',
                ''coaching_plan_for_growth''])) (\<lambda>c3.
     io_bind (insert_individual agent_id
                (c1 @ [JStr (replace ''_analysis.json'' ''.wav'' (snd file_path))] @ c2 @ c3) ts)
       (\<lambda>analysis_id.
     io_bind (lift (dict_get json_data ''detailed_evaluation'' (JList []))) (\<lambda>evaluation.
     io_bind (lift (iter evaluation)) (\<lambda>items.
     io_bind (lift (eval_params analysis_id qp_map items)) (\<lambda>rows.
       if rows \<noteq> [] then insert_evaluation_items rows else return ())))))))))"

definition insert_combined :: "nat \<Rightarrow> json list \<Rightarrow> nat \<Rightarrow> nat io" where
  \<comment> \<open>\<^verbatim>\<open>INSERT INTO CombinedAnalyses ... OUTPUT INSERTED.CombinedAnalysisID\<close>\<close>
  "insert_combined agent_id columns ts = perform InsertCombined
     (\<lambda>w. (Inr (next_id w),
            w\<lparr>db := (db w)\<lparr>CombinedAnalyses := CombinedAnalyses (db w) @
                    [\<lparr>CombinedAnalysisID = next_id w, ca_AgentID = agent_id, ca_columns = columns,
                      ca_ProcessingDateTime = ts\<rparr>]\<rparr>,
              next_id := Suc (next_id w)\<rparr>))"

definition insert_strengths :: "(nat \<times> json) list \<Rightarrow> unit io" where
  "insert_strengths rows = perform InsertStrengths
     (\<lambda>w. (Inr (), w\<lparr>db := (db w)\<lparr>CombinedAnalysisStrengths :=
                           CombinedAnalysisStrengths (db w) @ rows\<rparr>\<rparr>))"

definition insert_development_areas :: "(nat \<times> json) list \<Rightarrow> unit io" where
  "insert_development_areas rows = perform InsertDevelopmentAreas
     (\<lambda>w. (Inr (), w\<lparr>db := (db w)\<lparr>CombinedAnalysisDevelopmentAreas :=
                           CombinedAnalysisDevelopmentAreas (db w) @ rows\<rparr>\<rparr>))"

definition insert_coaching_focus :: "nat \<Rightarrow> json \<Rightarrow> nat io" where
  \<comment> \<open>\<^verbatim>\<open>INSERT INTO CombinedAnalysisCoachingFocus ... OUTPUT INSERTED.CoachingFocusID\<close>\<close>
  "insert_coaching_focus combined_id area_text = perform InsertCoachingFocus
     (\<lambda>w. (Inr (next_id w),
            w\<lparr>db := (db w)\<lparr>CombinedAnalysisCoachingFocus := CombinedAnalysisCoachingFocus (db w) @
                    [(next_id w, combined_id, area_text)]\<rparr>,
              next_id := Suc (next_id w)\<rparr>))"

definition insert_coaching_actions :: "(nat \<times> json) list \<Rightarrow> unit io" where
  "insert_coaching_actions rows = perform InsertCoachingActions
     (\<lambda>w. (Inr (), w\<lparr>db := (db w)\<lparr>CombinedAnalysisCoachingActions :=
                           CombinedAnalysisCoachingActions (db w) @ rows\<rparr>\<rparr>))"

definition insert_quality_point_details :: "quality_point_detail_row list \<Rightarrow> unit io" where
  "insert_quality_point_details rows = perform InsertQualityPointDetails
     (\<lambda>w. (Inr (), w\<lparr>db := (db w)\<lparr>CombinedAnalysisQualityPointDetails :=
                           CombinedAnalysisQualityPointDetails (db w) @ rows\<rparr>\<rparr>))"

definition insert_each :: "((nat \<times> json) list \<Rightarrow> unit io) \<Rightarrow> nat \<Rightarrow> json \<Rightarrow> unit io" where
  \<comment> \<open>\<^verbatim>\<open>if xs := ...: cursor.executemany(..., [(owner, x) for x in xs])\<close>\<close>
  "insert_each ins owner xs =
     (if truthy xs then io_bind (lift (iter xs)) (\<lambda>items. ins (map (\<lambda>x. (owner, x)) items))
      else return ())"

definition coaching_focus :: "nat \<Rightarrow> json \<Rightarrow> unit io" where
  \<comment> \<open>the body of the loop over \<^verbatim>\<open>consolidated_coaching_focus\<close>\<close>
  "coaching_focus combined_id focus_item =
     io_bind (lift (dict_get focus_item ''area'' JNull)) (\<lambda>area_text.
       if truthy area_text then
         io_bind (insert_coaching_focus combined_id area_text) (\<lambda>focus_id.
         io_bind (lift (dict_get focus_item ''specific_actions'' (JList []))) (\<lambda>actions.
           insert_each insert_coaching_actions focus_id actions))
       else return ())"

fun for_each :: "('a \<Rightarrow> unit io) \<Rightarrow> 'a list \<Rightarrow> unit io" where
  "for_each body [] = return ()"
| "for_each body (x # xs) = io_bind (body x) (\<lambda>_. for_each body xs)"

definition qp_params :: "nat \<Rightarrow> (string \<times> nat) list \<Rightarrow> json list \<Rightarrow> exn + quality_point_detail_row list" where
  \<comment> \<open>the comprehension over \<^verbatim>\<open>detailed_quality_point_analysis\<close>, with the same condition\<close>
  "qp_params combined_id qp_map items =
     comprehension (\<lambda>item.
        result_bind (lookup_quality_point qp_map item) (\<lambda>k.
          case k of
            None \<Rightarrow> Inr []
          | Some qp_id \<Rightarrow>
              if qp_id = 0 then Inr []
              else result_bind (dict_get item ''findings_summary'' (JDict [])) (\<lambda>findings.
                   result_bind (dict_get findings ''positive_count'' JNull) (\<lambda>positive.
                   result_bind (dict_get findings ''negative_count'' JNull) (\<lambda>negative.
                   result_bind (dict_get findings ''neutral_count'' JNull) (\<lambda>neutral.
                   result_bind (dict_get item ''trend_observation'' JNull) (\<lambda>trend.
                     Inr [(combined_id, qp_id, positive, negative, neutral, trend)]))))))) items"

definition process_combined_json ::
  "json \<Rightarrow> nat \<Rightarrow> (string \<times> nat) list \<Rightarrow> nat \<Rightarrow> unit io" where
  "process_combined_json json_data agent_id qp_map ts =
     io_bind (lift (dict_get json_data ''report_header'' (JDict []))) (\<lambda>header.
     io_bind (lift (dict_get json_data ''overall_performance_snapshot'' (JDict []))) (\<lambda>snapshot.
     io_bind (lift (dict_get snapshot ''aggregate_findings_counts'' (JDict []))) (\<lambda>counts.
     io_bind (lift (gets header [''analysis_period_note'', ''number_of_reports_provided'',
                ''number_of_reports_successfully_analyzed''])) (\<lambda>c1.
     io_bind (lift (gets snapshot [''total_calls_contributing_to_aggregates''])) (\<lambda>c2.
     io_bind (lift (gets counts [''positive_count'', ''negative_count'', ''neutral_count''])) (\<lambda>c3.
     io_bind (insert_combined agent_id (c1 @ c2 @ c3) ts) (\<lambda>combined_id.
     io_bind (lift (dict_get json_data ''qualitative_summary_and_coaching_plan'' (JDict [])))
       (\<lambda>qual_summary.
     io_bind (lift (dict_get qual_summary ''overall_strengths_observed'' (JList []))) (\<lambda>strengths.
     io_bind (insert_each insert_strengths combined_id strengths) (\<lambda>_.
     io_bind (lift (dict_get qual_summary ''overall_areas_for_development'' (JList []))) (\<lambda>dev_areas.
     io_bind (insert_each insert_development_areas combined_id dev_areas) (\<lambda>_.
     io_bind (lift (dict_get qual_summary ''consolidated_coaching_focus'' (JList []))) (\<lambda>focus.
     io_bind (lift (iter focus)) (\<lambda>focus_items.
     io_bind (for_each (coaching_focus combined_id) focus_items) (\<lambda>_.
     io_bind (lift (dict_get json_data ''detailed_quality_point_analysis'' (JList []))) (\<lambda>analysis.
     io_bind (lift (iter analysis)) (\<lambda>items.
     io_bind (lift (qp_params combined_id qp_map items)) (\<lambda>rows.
       if rows \<noteq> [] then insert_quality_point_details rows else return ()))))))))))))))))))"

subsection \<open>The batch driver\<close>

definition match_extension_at :: "string \<Rightarrow> string option" where
  \<comment> \<open>\<^verbatim>\<open>Week of \d{4}-\d{2}-\d{2}[\\/](\d{4})\<close> anchored at the start of \<open>s\<close>: group 1\<close>
  "match_extension_at s =
     (if startswith s ''Week of '' \<and> date_shape (take 10 (drop 8 s))
         \<and> (take 1 (drop 18 s) = [CHR 0x5C] \<or> take 1 (drop 18 s) = ''/'')
         \<and> length (take 4 (drop 19 s)) = 4 \<and> list_all is_digit (take 4 (drop 19 s))
      then Some (take 4 (drop 19 s)) else None)"

fun extract_extension_from_path :: "string \<Rightarrow> string option" where
  \<comment> \<open>\<^verbatim>\<open>re.search\<close>: the leftmost match\<close>
  "extract_extension_from_path [] = None"
| "extract_extension_from_path (c # cs) =
     (case match_extension_at (c # cs) of
        Some ext \<Rightarrow> Some ext
      | None \<Rightarrow> extract_extension_from_path cs)"

definition files_to_process :: "(path \<times> (exn + json)) list \<Rightarrow> path list" where
  \<comment> \<open>the comprehension over \<^verbatim>\<open>os.walk(target_folder)\<close>\<close>
  "files_to_process walk =
     map fst (filter (\<lambda>(file, _).
        (endswith (snd file) ''_analysis.json'' \<or> contains COMBINED_REPORT_FILENAME (snd file))
        \<and> \<not> (startswith (snd file) PROCESSED_PREFIX \<or> startswith (snd file) FAILED_PREFIX)) walk)"

definition get_db_connection :: "unit io" where
  \<comment> \<open>a new connection sees what is committed; \<^verbatim>\<open>pyodbc.connect\<close> leaves autocommit
      off, and nothing turns it on, so that the guard of the rollback below always holds\<close>
  "get_db_connection = perform Connect (\<lambda>w. (Inr (), w\<lparr>db := committed w\<rparr>))"

definition commit :: "unit io" where
  "commit = perform Commit (\<lambda>w. (Inr (), w\<lparr>committed := db w\<rparr>))"

definition rollback :: "unit io" where
  "rollback = perform Rollback (\<lambda>w. (Inr (), w\<lparr>db := committed w\<rparr>))"

definition close :: "world \<Rightarrow> world" where
  \<comment> \<open>\<^verbatim>\<open>conn.close()\<close>: what was not committed is gone\<close>
  "close w = w\<lparr>db := committed w\<rparr>"

definition read_json :: "path \<Rightarrow> json io" where
  \<comment> \<open>\<^verbatim>\<open>open(file_path)\<close> and \<^verbatim>\<open>json.load\<close>\<close>
  "read_json file = perform (OpenFile file)
     (\<lambda>w. case map_of (files w) file of
             None \<Rightarrow> (Inl OSError, w)
           | Some content \<Rightarrow> (content, w))"

definition move :: "path \<Rightarrow> string \<Rightarrow> unit io" where
  \<comment> \<open>\<^verbatim>\<open>shutil.move(file_path, os.path.join(os.path.dirname(file_path), prefix + base_name))\<close>:
      the file takes the new name, in the place of any file that had it\<close>
  "move file prefix = perform (Move file prefix)
     (\<lambda>w. case map_of (files w) file of
             None \<Rightarrow> (Inl OSError, w)
           | Some content \<Rightarrow>
               (Inr (), w\<lparr>files :=
                  map (\<lambda>(f, c). if f = file then ((fst file, prefix @ snd file), c) else (f, c))
                    (filter (\<lambda>(f, c). f \<noteq> (fst file, prefix @ snd file)) (files w))\<rparr>))"

definition quality_points_of :: "json \<Rightarrow> string \<Rightarrow> exn + json list" where
  \<comment> \<open>\<^verbatim>\<open>{item.get('quality_point') for item in json_data.get(key, [])
         if item.get('quality_point')}\<close>; a set holds hashable values only\<close>
  "quality_points_of json_data key =
     result_bind (dict_get json_data key (JList [])) (\<lambda>v.
     result_bind (iter v) (\<lambda>items.
       comprehension (\<lambda>item.
         result_bind (dict_get item ''quality_point'' JNull) (\<lambda>qp.
           if truthy qp then (if hashable qp then Inr [qp] else Inl TypeError) else Inr [])) items))"

definition all_quality_points :: "json \<Rightarrow> exn + json list" where
  \<comment> \<open>\<^verbatim>\<open>all_qps\<close> after the \<^verbatim>\<open>update\<close>, as the list of its elements\<close>
  "all_quality_points json_data =
     result_bind (quality_points_of json_data ''detailed_evaluation'') (\<lambda>xs.
     result_bind (quality_points_of json_data ''detailed_quality_point_analysis'') (\<lambda>ys.
       Inr (remdups (xs @ ys))))"

definition agent_details_for :: "(string \<rightharpoonup> agent_details) \<Rightarrow> string \<Rightarrow> agent_details" where
  \<comment> \<open>\<^verbatim>\<open>ext_map.get(extension, {"full_name": f"Un-rostered Agent - {extension}",
         "email": None, "extension": extension})\<close>\<close>
  "agent_details_for ext_map ext =
     (case ext_map ext of
        Some details \<Rightarrow> details
      | None \<Rightarrow> \<lparr>full_name = ''Un-rostered Agent - '' @ ext, email = None, extension = ext\<rparr>)"

definition import_rows :: "nat \<Rightarrow> (string \<rightharpoonup> agent_details) \<Rightarrow> path \<Rightarrow> string \<Rightarrow> unit io" where
  \<comment> \<open>the \<^verbatim>\<open>try\<close> block of the loop from the agent details up to the commit;
      \<^verbatim>\<open>not agent_id\<close> holds of \<^verbatim>\<open>None\<close> and of 0\<close>
  "import_rows ts ext_map file ext =
     (let agent_details = agent_details_for ext_map ext in
      io_bind (read_json file) (\<lambda>json_data.
      io_bind (get_or_create_agent agent_details) (\<lambda>agent_id.
        case agent_id of
          None \<Rightarrow> raise ValueError
        | Some agent_id \<Rightarrow>
            if agent_id = 0 then raise ValueError
            else
              io_bind (lift (all_quality_points json_data)) (\<lambda>all_qps.
              io_bind (get_or_create_quality_points all_qps) (\<lambda>qp_map.
                if contains COMBINED_REPORT_FILENAME (snd file)
                then process_combined_json json_data agent_id qp_map ts
                else process_individual_json json_data file agent_id qp_map ts)))))"

definition import_document :: "nat \<Rightarrow> (string \<rightharpoonup> agent_details) \<Rightarrow> path \<Rightarrow> string \<Rightarrow> unit io" where
  \<comment> \<open>the same, and \<^verbatim>\<open>conn.commit()\<close>\<close>
  "import_document ts ext_map file ext =
     io_bind (import_rows ts ext_map file ext) (\<lambda>_. commit)"

datatype phase = Importing | Renaming

datatype outcome =
    Skipped
  | Stored
  | Failed phase exn
  | Aborted phase exn

text \<open>
  What became of a file, for the log: \<open>Skipped\<close> by the \<^verbatim>\<open>continue\<close>, \<open>Stored\<close> when
  the \<^verbatim>\<open>try\<close> block ran through, \<open>Failed\<close> when the \<^verbatim>\<open>except\<close> clause handled the
  exception given, raised before the commit was done (\<open>Importing\<close>) or by the renaming
  after it (\<open>Renaming\<close>), \<open>Aborted\<close> when the rollback in the \<^verbatim>\<open>except\<close> clause itself
  raised the exception given, which leaves the loop.
\<close>

definition handle_failure :: "phase \<Rightarrow> exn \<Rightarrow> path \<Rightarrow> world \<Rightarrow> outcome \<times> world" where
  \<comment> \<open>the \<^verbatim>\<open>except\<close> clause of the loop; a failed renaming is logged, no more\<close>
  "handle_failure ph e file w =
     (case rollback w of
        (Inl e', w') \<Rightarrow> (Aborted ph e', w')
      | (Inr _, w') \<Rightarrow> (Failed ph e, snd (move file FAILED_PREFIX w')))"

definition process_file ::
  "nat \<Rightarrow> (string \<rightharpoonup> agent_details) \<Rightarrow> path \<Rightarrow> world \<Rightarrow> outcome \<times> world" where
  \<comment> \<open>the body of the loop over \<^verbatim>\<open>files_to_process\<close>\<close>
  "process_file ts ext_map file w =
     (case extract_extension_from_path (path_join (fst file) (snd file)) of
        None \<Rightarrow> (Skipped, w)
      | Some ext \<Rightarrow>
          (case import_document ts ext_map file ext w of
             (Inl e, w') \<Rightarrow> handle_failure Importing e file w'
           | (Inr _, w') \<Rightarrow>
               (case move file PROCESSED_PREFIX w' of
                  (Inl e, w'') \<Rightarrow> handle_failure Renaming e file w''
                | (Inr _, w'') \<Rightarrow> (Stored, w''))))"

fun process_files ::
  "nat \<Rightarrow> (string \<rightharpoonup> agent_details) \<Rightarrow> path list \<Rightarrow> world \<Rightarrow> outcome list \<times> world" where
  "process_files ts ext_map [] w = ([], w)"
| "process_files ts ext_map (file # rest) w =
     (case process_file ts ext_map file w of
        (Aborted ph e, w') \<Rightarrow> ([Aborted ph e], w')
      | (out, w') \<Rightarrow>
          (case process_files ts ext_map rest w' of (outs, w'') \<Rightarrow> (out # outs, w'')))"

definition process_folder :: "(string \<rightharpoonup> agent_details) \<Rightarrow> world \<Rightarrow> outcome list \<times> world" where
  \<comment> \<open>the result lists what became of each file reached, in order\<close>
  "process_folder ext_map w =
     (let todo = files_to_process (files w) in
      if todo = [] then ([], w)
      else (case get_db_connection w of
              (Inl e, w') \<Rightarrow> ([], w')
            | (Inr _, w') \<Rightarrow>
                (let ts = clock w' in
                 case process_files ts ext_map todo w' of
                   (outs, w'') \<Rightarrow> (outs, close w''))))"

subsection \<open>Notions used in the statements\<close>

definition invariant :: "(world \<Rightarrow> bool) \<Rightarrow> (world \<Rightarrow> 'a \<times> world) \<Rightarrow> bool" where
  \<comment> \<open>a property of the world that a computation keeps, however it ends\<close>
  "invariant P m = (\<forall>w. P w \<longrightarrow> P (snd (m w)))"

definition untouched :: "world \<Rightarrow> world \<Rightarrow> bool" where
  \<comment> \<open>nothing was committed, no file renamed; the faults to come are the same\<close>
  "untouched w0 w = (committed w = committed w0 \<and> files w = files w0 \<and> faults w = faults w0)"

definition contains_ignoring_case :: "string \<Rightarrow> string \<Rightarrow> bool" where
  \<comment> \<open>the label contains the token, matched case-insensitively: at some position
      the label reads as the token does, up to the case of the letters\<close>
  "contains_ignoring_case token label =
     (\<exists>i \<le> length label.
        list_all2 (\<lambda>a b. upper_char a = upper_char b) (take (length token) (drop i label)) token)"

definition bonus_rows :: "quality_point_row set \<Rightarrow> world \<Rightarrow> bool" where
  \<comment> \<open>every row of the master list is one of \<open>S\<close> or has the flag that
      \<^verbatim>\<open>get_or_create_quality_points\<close> computes for its text\<close>
  "bonus_rows S w =
     (\<forall>row \<in> set (QualityPointsMaster (db w)).
        row \<in> S \<or> IsBonus row = is_bonus (QualityPointText row))"

definition stamped :: "nat \<Rightarrow> individual_row set \<Rightarrow> combined_row set \<Rightarrow> world \<Rightarrow> bool" where
  \<comment> \<open>every analysis, committed or not, is one of \<open>I\<close> or \<open>C\<close>, or is stamped \<open>ts\<close>\<close>
  "stamped ts I C w =
     ((\<forall>r \<in> set (IndividualCallAnalyses (db w)) \<union> set (IndividualCallAnalyses (committed w)).
         r \<in> I \<or> ia_ProcessingDateTime r = ts)
      \<and> (\<forall>r \<in> set (CombinedAnalyses (db w)) \<union> set (CombinedAnalyses (committed w)).
         r \<in> C \<or> ca_ProcessingDateTime r = ts))"


definition kept_by_statements :: "nat \<Rightarrow> (world \<Rightarrow> bool) \<Rightarrow> bool" where
  \<comment> \<open>a property that every statement sent to the store keeps, and reading a file too,
      the analyses inserted being stamped \<open>ts\<close>\<close>
  "kept_by_statements ts P =
     ((\<forall>ext. invariant P (select_agent ext))
      \<and> (\<forall>n m ext. invariant P (insert_agent n m ext))
      \<and> (\<forall>texts. invariant P (select_quality_points texts))
      \<and> (\<forall>params. invariant P (insert_quality_points params))
      \<and> (\<forall>a c. invariant P (insert_individual a c ts))
      \<and> (\<forall>rows. invariant P (insert_evaluation_items rows))
      \<and> (\<forall>a c. invariant P (insert_combined a c ts))
      \<and> (\<forall>rows. invariant P (insert_strengths rows))
      \<and> (\<forall>rows. invariant P (insert_development_areas rows))
      \<and> (\<forall>c a. invariant P (insert_coaching_focus c a))
      \<and> (\<forall>rows. invariant P (insert_coaching_actions rows))
      \<and> (\<forall>rows. invariant P (insert_quality_point_details rows))
      \<and> (\<forall>file. invariant P (read_json file)))"

subsection \<open>A small batch to run\<close>

definition empty_db :: database where
  "empty_db = \<lparr>Agents = [], QualityPointsMaster = [], IndividualCallAnalyses = [],
     IndividualEvaluationItems = [], CombinedAnalyses = [], CombinedAnalysisStrengths = [],
     CombinedAnalysisDevelopmentAreas = [], CombinedAnalysisCoachingFocus = [],
     CombinedAnalysisCoachingActions = [], CombinedAnalysisQualityPointDetails = []\<rparr>"

definition new_world :: "(path \<times> (exn + json)) list \<Rightarrow> (nat \<Rightarrow> exn option) \<Rightarrow> world" where
  \<comment> \<open>an empty store whose first key will be 1, the files given and the faults given\<close>
  "new_world fs flt = \<lparr>db = empty_db, committed = empty_db, next_id = 1, clock = 0,
     faults = flt, trace = [], files = fs\<rparr>"

definition no_fault :: "nat \<Rightarrow> exn option" where
  "no_fault = (\<lambda>k. None)"

definition fail_at :: "nat \<Rightarrow> exn \<Rightarrow> nat \<Rightarrow> exn option" where
  \<comment> \<open>the call made at time \<open>n\<close> raises \<open>e\<close>\<close>
  "fail_at n e = (\<lambda>k. if k = n then Some e else None)"

definition call1 :: path where
  "call1 = (''/qa/Week of 2024-06-09/1001'', ''call1_analysis.json'')"

definition call1_doc :: json where
  "call1_doc = JDict
     [(''call_summary'', JDict [(''client_name'', JStr ''Acme'')]),
      (''detailed_evaluation'',
         JList [JDict [(''quality_point'', JStr ''Greeting''), (''finding'', JStr ''Positive'')]])]"

definition source_root_listing :: "(string \<times> bool) list" where
  "source_root_listing =
     [(''Week of 2024-06-02'', True), (''Week of 2024-06-09'', True),
      (''Week of 2024-13-01'', True), (''Week of 2025-01-01'', False), (''notes'', True)]"

definition combined1 :: path where
  "combined1 = (''/qa/Week of 2024-06-09/1001'', ''Combined_Analysis_Report.json'')"

definition combined1_doc :: json where
  "combined1_doc = JDict
     [(''report_header'', JDict [(''analysis_period_note'', JStr ''June'')]),
      (''qualitative_summary_and_coaching_plan'', JDict
         [(''overall_strengths_observed'', JList [JStr ''Clear'']),
          (''consolidated_coaching_focus'',
             JList [JDict [(''area'', JStr ''Pace''),
                           (''specific_actions'', JList [JStr ''Slow down''])]])]),
      (''detailed_quality_point_analysis'',
         JList [JDict [(''quality_point'', JStr ''Greeting''),
                       (''trend_observation'', JStr ''Stable'')]])]"

definition two_reports :: world where
  "two_reports = new_world [(call1, Inr call1_doc), (combined1, Inr combined1_doc)] no_fault"

definition stored0 :: path where
  "stored0 = (''/qa/Week of 2024-06-09/1001'', ''Stored-call0_analysis.json'')"

definition bad9 :: path where
  "bad9 = (''/qa/Week of 2024-06-09/1001'', ''BadData-call9_analysis.json'')"

definition second_run :: "(nat \<Rightarrow> exn option) \<Rightarrow> world" where
  \<comment> \<open>a folder that an earlier run has been through, one file left\<close>
  "second_run flt =
     new_world [(stored0, Inr call1_doc), (call1, Inr call1_doc), (bad9, Inl JSONDecodeError)] flt"

definition known_agent :: agent_row where
  "known_agent = \<lparr>AgentID = 7, AgentName = ''J. Rivera'', EmailAddress = Some ''jr@example.org'',
     Extension = ''1001''\<rparr>"

definition known_agent_world :: world where
  "known_agent_world =
     (new_world [(call1, Inr call1_doc)] no_fault)
       \<lparr>db := empty_db\<lparr>Agents := [known_agent]\<rparr>,
        committed := empty_db\<lparr>Agents := [known_agent]\<rparr>, next_id := 8\<rparr>"





definition padded_doc :: json where
  \<comment> \<open>one evaluation item, its label written with a space on either side\<close>
  "padded_doc = JDict
     [(''call_summary'', JDict [(''client_name'', JStr ''Acme'')]),
      (''detailed_evaluation'',
         JList [JDict [(''quality_point'', JStr '' Tone ''), (''finding'', JStr ''Positive'')]])]"

definition blank_doc :: json where
  \<comment> \<open>one evaluation item, its label two spaces\<close>
  "blank_doc = JDict
     [(''call_summary'', JDict [(''client_name'', JStr ''Acme'')]),
      (''detailed_evaluation'',
         JList [JDict [(''quality_point'', JStr ''  ''), (''finding'', JStr ''Positive'')]])]"

definition null_label_doc :: json where
  \<comment> \<open>one evaluation item, its label \<^verbatim>\<open>null\<close>\<close>
  "null_label_doc = JDict
     [(''call_summary'', JDict [(''client_name'', JStr ''Broken'')]),
      (''detailed_evaluation'',
         JList [JDict [(''quality_point'', JNull), (''finding'', JStr ''Positive'')]])]"

definition lost_from :: "nat \<Rightarrow> exn \<Rightarrow> nat \<Rightarrow> exn option" where
  \<comment> \<open>every call made at time \<open>n\<close> or later raises \<open>e\<close>: the connection is lost\<close>
  "lost_from n e = (\<lambda>k. if n \<le> k then Some e else None)"

section \<open>Properties\<close>

subsection \<open>What a computation keeps\<close>

lemma invariantD: "invariant P m \<Longrightarrow> P w \<Longrightarrow> m w = (r, w') \<Longrightarrow> P w'"
  by (auto simp: invariant_def)

lemma invariant_return: "invariant P (return x)"
  by (simp add: invariant_def return_def)

lemma invariant_raise: "invariant P (raise e)"
  by (simp add: invariant_def raise_def)

lemma invariant_lift: "invariant P (lift r)"
  by (simp add: invariant_def lift_def)

lemma invariant_bind:
  assumes "invariant P m" and "\<And>x. invariant P (f x)"
  shows "invariant P (io_bind m f)"
proof -
  have "P (snd (io_bind m f w))" if p: "P w" for w
  proof (cases "m w")
    case (Pair r w')
    from assms(1) p Pair have p': "P w'" by (auto simp: invariant_def)
    show ?thesis
    proof (cases r)
      case (Inl e)
      with Pair p' show ?thesis by (simp add: io_bind_def)
    next
      case (Inr x)
      with Pair p' assms(2) [of x] show ?thesis by (simp add: io_bind_def invariant_def)
    qed
  qed
  then show ?thesis by (simp add: invariant_def)
qed

lemma invariant_perform:
  assumes "\<And>w. P w \<Longrightarrow> P (w\<lparr>clock := Suc (clock w), trace := trace w @ [c]\<rparr>)"
    and "invariant P f"
  shows "invariant P (perform c f)"
  using assms by (auto simp: invariant_def perform_def Let_def split: option.splits)

lemma invariant_if:
  "invariant P m \<Longrightarrow> invariant P n \<Longrightarrow> invariant P (if b then m else n)"
  by simp

lemma invariant_for_each:
  assumes "\<And>x. invariant P (body x)"
  shows "invariant P (for_each body xs)"
  by (induction xs) (simp_all add: invariant_return invariant_bind assms)

lemma invariant_insert_each:
  assumes "\<And>rows. invariant P (ins rows)"
  shows "invariant P (insert_each ins owner xs)"
  by (simp add: insert_each_def invariant_return invariant_bind invariant_lift assms)


lemma invariant_get_or_create_agent:
  assumes "\<And>ext. invariant P (select_agent ext)"
    and "\<And>n m ext. invariant P (insert_agent n m ext)"
  shows "invariant P (get_or_create_agent details)"
  by (auto simp: get_or_create_agent_def Let_def assms
      intro!: invariant_return invariant_bind split: option.splits)

lemma invariant_get_or_create_quality_points:
  assumes "\<And>texts. invariant P (select_quality_points texts)"
    and "\<And>params. invariant P (insert_quality_points params)"
  shows "invariant P (get_or_create_quality_points qp_texts)"
  by (auto simp: get_or_create_quality_points_def Let_def assms
      intro!: invariant_return invariant_bind invariant_lift)

lemma invariant_process_individual_json:
  assumes "\<And>a c. invariant P (insert_individual a c ts)"
    and "\<And>rows. invariant P (insert_evaluation_items rows)"
  shows "invariant P (process_individual_json json_data file agent_id qp_map ts)"
  unfolding process_individual_json_def
  by (intro invariant_bind invariant_lift invariant_if invariant_return assms)

lemma invariant_coaching_focus:
  assumes "\<And>c a. invariant P (insert_coaching_focus c a)"
    and "\<And>rows. invariant P (insert_coaching_actions rows)"
  shows "invariant P (coaching_focus combined_id focus_item)"
  unfolding coaching_focus_def
  by (intro invariant_bind invariant_lift invariant_if invariant_return invariant_insert_each assms)

lemma invariant_process_combined_json:
  assumes "\<And>a c. invariant P (insert_combined a c ts)"
    and "\<And>rows. invariant P (insert_strengths rows)"
    and "\<And>rows. invariant P (insert_development_areas rows)"
    and "\<And>c a. invariant P (insert_coaching_focus c a)"
    and "\<And>rows. invariant P (insert_coaching_actions rows)"
    and "\<And>rows. invariant P (insert_quality_point_details rows)"
  shows "invariant P (process_combined_json json_data agent_id qp_map ts)"
  unfolding process_combined_json_def
  by (intro invariant_bind invariant_lift invariant_if invariant_return invariant_insert_each
      invariant_for_each invariant_coaching_focus assms)



lemma invariant_import_rows:
  assumes "kept_by_statements ts P"
  shows "invariant P (import_rows ts ext_map file ext)"
proof -
  have a: "invariant P (get_or_create_agent d)" for d
    using assms by (intro invariant_get_or_create_agent) (simp_all add: kept_by_statements_def)
  have q: "invariant P (get_or_create_quality_points xs)" for xs
    using assms by (intro invariant_get_or_create_quality_points) (simp_all add: kept_by_statements_def)
  have i: "invariant P (process_individual_json j f a m ts)" for j f a m
    using assms by (intro invariant_process_individual_json) (simp_all add: kept_by_statements_def)
  have c: "invariant P (process_combined_json j a m ts)" for j a m
    using assms by (intro invariant_process_combined_json) (simp_all add: kept_by_statements_def)
  have r: "invariant P (read_json f)" for f
    using assms unfolding kept_by_statements_def by blast
  have rest: "invariant P (case agent_id of
          None \<Rightarrow> raise ValueError
        | Some agent_id \<Rightarrow>
            if agent_id = 0 then raise ValueError
            else
              io_bind (lift (all_quality_points json_data)) (\<lambda>all_qps.
              io_bind (get_or_create_quality_points all_qps) (\<lambda>qp_map.
                if contains COMBINED_REPORT_FILENAME (snd file)
                then process_combined_json json_data agent_id qp_map ts
                else process_individual_json json_data file agent_id qp_map ts)))" for agent_id json_data
    by (cases agent_id) (auto intro!: invariant_raise invariant_bind invariant_lift q i c)
  show ?thesis
    unfolding import_rows_def Let_def
    by (intro invariant_bind r a rest)
qed

lemma untouched_refl: "untouched w w"
  by (simp add: untouched_def)

lemma kept_untouched: "kept_by_statements ts (untouched w0)"
  unfolding kept_by_statements_def
  by (auto simp: invariant_def untouched_def perform_def Let_def
      select_agent_def insert_agent_def select_quality_points_def insert_quality_points_def
      insert_individual_def insert_evaluation_items_def insert_combined_def insert_strengths_def
      insert_development_areas_def insert_coaching_focus_def insert_coaching_actions_def
      insert_quality_point_details_def read_json_def split: option.splits)

lemma import_rows_untouched: "untouched w (snd (import_rows ts ext_map file ext w))"
  using invariant_import_rows [OF kept_untouched, of w ts ext_map "file" ext] untouched_refl [of w]
  by (simp add: invariant_def)

lemma import_document_raises:
  assumes "import_document ts ext_map file ext w = (Inl e, w')"
  shows "untouched w w'"
proof (cases "import_rows ts ext_map file ext w")
  case (Pair r w1)
  with import_rows_untouched [of w ts ext_map "file" ext] have u: "untouched w w1" by simp
  show ?thesis
  proof (cases r)
    case (Inl e1)
    with Pair assms u show ?thesis by (simp add: import_document_def io_bind_def)
  next
    case (Inr x)
    with Pair assms have "commit w1 = (Inl e, w')" by (simp add: import_document_def io_bind_def)
    then have "untouched w1 w'"
      by (auto simp: commit_def perform_def Let_def untouched_def split: option.splits)
    with u show ?thesis by (simp add: untouched_def)
  qed
qed

subsection \<open>The latest week folder\<close>

lemma set_week_folders:
  "set (week_folders root entries) =
     {(d, path_join root item) | item d. (item, True) \<in> set entries \<and> folder_date item = Some d}"
proof (induction entries)
  case Nil
  show ?case by (simp add: week_folders_def)
next
  case (Cons e es)
  obtain item isdir where e: "e = (item, isdir)" by (cases e)
  have step: "week_folders root (e # es) =
      (if isdir then (case folder_date item of Some d \<Rightarrow> [(d, path_join root item)] | None \<Rightarrow> [])
       else []) @ week_folders root es"
    by (simp add: week_folders_def e)
  show ?case unfolding step using Cons.IH
    by (cases isdir; cases "folder_date item") (auto simp: e)
qed

lemma sorted_last_max:
  "sorted (map f zs) \<Longrightarrow> x \<in> set zs \<Longrightarrow> f x \<le> f (last zs)"
  by (induction zs) (auto split: if_splits)

lemma sorted_reverse_Cons:
  assumes "sorted_reverse f xs = y # ys"
  shows "y \<in> set xs \<and> (\<forall>x \<in> set xs. f x \<le> f y)"
proof -
  let ?zs = "sort_key f (rev xs)"
  from assms have r: "rev ?zs = y # ys" by (simp add: sorted_reverse_def)
  then have ne: "?zs \<noteq> []" by auto
  from r have "hd (rev ?zs) = y" by simp
  with ne have l: "last ?zs = y" by (simp add: hd_rev)
  from ne have "last ?zs \<in> set ?zs" by (rule last_in_set)
  with l have m: "y \<in> set xs" by simp
  have "\<forall>x \<in> set xs. f x \<le> f y"
  proof
    fix x assume "x \<in> set xs"
    then have "x \<in> set ?zs" by simp
    with sorted_last_max [of f ?zs x] l show "f x \<le> f y" by simp
  qed
  with m show ?thesis by simp
qed

lemma sorted_reverse_Nil: "sorted_reverse f xs = [] \<longleftrightarrow> xs = []"
  by (simp add: sorted_reverse_def) (metis length_0_conv length_sort length_rev)

text \<open>
  Claim C9. Among the directories of the source root whose name holds
  \<^verbatim>\<open>Week of YYYY-MM-DD\<close> with a date of the calendar, the one returned has the most
  recent date: no other such directory has a later one. Nothing is returned exactly
  when there is no such directory.
\<close>

theorem find_latest_week_folder_most_recent:
  "case find_latest_week_folder root_dir (Some entries) of
     None \<Rightarrow> \<not> (\<exists>item d. (item, True) \<in> set entries \<and> folder_date item = Some d)
   | Some p \<Rightarrow>
       (\<exists>item d. (item, True) \<in> set entries \<and> folder_date item = Some d
          \<and> p = path_join root_dir item
          \<and> (\<forall>item' d'. (item', True) \<in> set entries \<and> folder_date item' = Some d' \<longrightarrow> d' \<le> d))"
proof (cases "sorted_reverse fst (week_folders root_dir entries)")
  case Nil
  then have "week_folders root_dir entries = []" by (simp add: sorted_reverse_Nil)
  then have "set (week_folders root_dir entries) = {}" by simp
  then have "\<not> (\<exists>item d. (item, True) \<in> set entries \<and> folder_date item = Some d)"
    unfolding set_week_folders by blast
  with Nil show ?thesis by (simp add: find_latest_week_folder_def)
next
  case (Cons y ys)
  from sorted_reverse_Cons [OF Cons]
  have m: "y \<in> set (week_folders root_dir entries)"
    and mx: "\<forall>x \<in> set (week_folders root_dir entries). fst x \<le> fst y" by simp_all
  from m obtain item d where i: "(item, True) \<in> set entries" "folder_date item = Some d"
    "y = (d, path_join root_dir item)" unfolding set_week_folders by blast
  have "\<forall>item' d'. (item', True) \<in> set entries \<and> folder_date item' = Some d' \<longrightarrow> d' \<le> d"
  proof (intro allI impI)
    fix item' d' assume "(item', True) \<in> set entries \<and> folder_date item' = Some d'"
    then have "(d', path_join root_dir item') \<in> set (week_folders root_dir entries)"
      unfolding set_week_folders by blast
    with mx i(3) show "d' \<le> d" by fastforce
  qed
  with i(1,2) have ex: "\<exists>item0 d0. (item0, True) \<in> set entries \<and> folder_date item0 = Some d0
          \<and> path_join root_dir item = path_join root_dir item0
          \<and> (\<forall>item' d'. (item', True) \<in> set entries \<and> folder_date item' = Some d' \<longrightarrow> d' \<le> d0)"
    by blast
  have fl: "find_latest_week_folder root_dir (Some entries) = Some (path_join root_dir item)"
    using Cons i(3) by (simp add: find_latest_week_folder_def)
  show ?thesis unfolding fl option.case by (rule ex)
qed

theorem find_latest_week_folder_most_recent_witness:
  "find_latest_week_folder ''/qa'' (Some source_root_listing) = Some ''/qa/Week of 2024-06-09''
   \<and> (''Week of 2024-06-02'', True) \<in> set source_root_listing
   \<and> folder_date ''Week of 2024-06-02'' = Some (2024, 6, 2)
   \<and> (\<exists>item d. (item, True) \<in> set source_root_listing \<and> folder_date item = Some d
          \<and> ''/qa/Week of 2024-06-09'' = path_join ''/qa'' item
          \<and> (\<forall>item' d'. (item', True) \<in> set source_root_listing
                 \<and> folder_date item' = Some d' \<longrightarrow> d' \<le> d))"
proof -
  have f: "find_latest_week_folder ''/qa'' (Some source_root_listing)
             = Some ''/qa/Week of 2024-06-09''"
    by code_simp
  have m: "(''Week of 2024-06-02'', True) \<in> set source_root_listing"
    by (simp add: source_root_listing_def)
  have d: "folder_date ''Week of 2024-06-02'' = Some (2024, 6, 2)"
    by code_simp
  from find_latest_week_folder_most_recent [where root_dir = "''/qa''" and entries = source_root_listing] f m d
  show ?thesis by simp
qed

subsection \<open>The bonus flag of a new quality point\<close>

lemma contains_iff:
  "contains needle s \<longleftrightarrow> (\<exists>i \<le> length s. take (length needle) (drop i s) = needle)"
proof (induction s)
  case Nil
  show ?case by auto
next
  case (Cons c cs)
  have "(\<exists>i \<le> length (c # cs). take (length needle) (drop i (c # cs)) = needle)
        \<longleftrightarrow> take (length needle) (c # cs) = needle
            \<or> (\<exists>i \<le> length cs. take (length needle) (drop i cs) = needle)"
    (is "?l \<longleftrightarrow> ?a \<or> ?b")
  proof
    assume ?l
    then obtain i where i: "i \<le> length (c # cs)" "take (length needle) (drop i (c # cs)) = needle"
      by blast
    show "?a \<or> ?b"
    proof (cases i)
      case 0
      with i show ?thesis by simp
    next
      case (Suc j)
      with i have "j \<le> length cs \<and> take (length needle) (drop j cs) = needle" by simp
      then show ?thesis by blast
    qed
  next
    assume "?a \<or> ?b"
    then show ?l
    proof
      assume ?a
      then have "0 \<le> length (c # cs) \<and> take (length needle) (drop 0 (c # cs)) = needle" by simp
      then show ?l by blast
    next
      assume ?b
      then obtain j where "j \<le> length cs" "take (length needle) (drop j cs) = needle" by blast
      then have "Suc j \<le> length (c # cs) \<and> take (length needle) (drop (Suc j) (c # cs)) = needle"
        by simp
      then show ?l by blast
    qed
  qed
  with Cons.IH show ?case by (simp add: startswith_def)
qed

lemma list_all2_maps: "list_all2 (\<lambda>a b. f a = g b) xs ys \<longleftrightarrow> map f xs = map g ys"
proof (induction xs arbitrary: ys)
  case Nil
  show ?case by auto
next
  case (Cons x xs)
  then show ?case by (cases ys) auto
qed

lemma upper_marker: "map upper_char ''[BONUS]'' = ''[BONUS]''"
  by (simp add: upper_char_def)

lemma contains_upper:
  "contains m (upper text)
   \<longleftrightarrow> (\<exists>i \<le> length text. map upper_char (take (length m) (drop i text)) = m)"
  by (simp add: contains_iff upper_def take_map drop_map)

lemma contains_ignoring_case_upper:
  assumes "map upper_char m = m"
  shows "contains_ignoring_case m text
   \<longleftrightarrow> (\<exists>i \<le> length text. map upper_char (take (length m) (drop i text)) = m)"
  unfolding contains_ignoring_case_def list_all2_maps assms ..

lemma is_bonus_iff:
  "is_bonus text = (if contains_ignoring_case ''[BONUS]'' text then 1 else 0)"
  unfolding is_bonus_def contains_upper contains_ignoring_case_upper [OF upper_marker] ..

lemma bonus_rows_select: "invariant (bonus_rows S) (select_quality_points texts)"
  by (auto simp: invariant_def bonus_rows_def select_quality_points_def perform_def Let_def
      split: option.splits)

lemma issue_ids_snd: "p \<in> set (issue_ids n params) \<Longrightarrow> snd p \<in> set params"
  by (cases p) (auto simp: issue_ids_def dest: set_zip_rightD)

lemma bonus_rows_insert:
  "invariant (bonus_rows S) (insert_quality_points (map (\<lambda>text. (text, is_bonus text)) new_qps))"
  by (auto simp: invariant_def bonus_rows_def insert_quality_points_def perform_def Let_def
      split: option.splits dest!: issue_ids_snd)

lemma bonus_rows_resolver: "invariant (bonus_rows S) (get_or_create_quality_points qp_texts)"
  by (auto simp: get_or_create_quality_points_def Let_def
      intro!: invariant_return invariant_bind invariant_lift bonus_rows_select bonus_rows_insert)

text \<open>
  Claim C8. A row that \<^verbatim>\<open>get_or_create_quality_points\<close> adds to the master list has
  its bonus flag set (1) when its text contains the token \<^verbatim>\<open>[BONUS]\<close>, matched
  case-insensitively, and unset (0) when it does not.
\<close>

theorem new_quality_point_bonus_flag:
  assumes "get_or_create_quality_points qp_texts w = (r, w')"
    and "row \<in> set (QualityPointsMaster (db w'))"
    and "row \<notin> set (QualityPointsMaster (db w))"
  shows "IsBonus row = (if contains_ignoring_case ''[BONUS]'' (QualityPointText row) then 1 else 0)"
proof -
  have "bonus_rows (set (QualityPointsMaster (db w))) w" by (simp add: bonus_rows_def)
  from invariantD [OF bonus_rows_resolver this assms(1)]
  have "bonus_rows (set (QualityPointsMaster (db w))) w'" .
  with assms(2,3) show ?thesis by (auto simp: bonus_rows_def is_bonus_iff)
qed

theorem new_quality_point_bonus_flag_witness:
  "\<lparr>QualityPointID = 1, QualityPointText = ''[Bonus] Upsell Attempt'', IsBonus = 1\<rparr>
     \<in> set (QualityPointsMaster (db (snd (get_or_create_quality_points
           [JStr ''[Bonus] Upsell Attempt'', JStr ''Greeting''] (new_world [] no_fault)))))
   \<and> \<lparr>QualityPointID = 2, QualityPointText = ''Greeting'', IsBonus = 0\<rparr>
     \<in> set (QualityPointsMaster (db (snd (get_or_create_quality_points
           [JStr ''[Bonus] Upsell Attempt'', JStr ''Greeting''] (new_world [] no_fault)))))
   \<and> QualityPointsMaster (db (new_world [] no_fault)) = []
   \<and> contains_ignoring_case ''[BONUS]'' ''[Bonus] Upsell Attempt''
   \<and> \<not> contains_ignoring_case ''[BONUS]'' ''Greeting''"
proof -
  let ?w = "new_world [] no_fault"
  let ?r = "get_or_create_quality_points [JStr ''[Bonus] Upsell Attempt'', JStr ''Greeting''] ?w"
  let ?bonus = "\<lparr>QualityPointID = 1, QualityPointText = ''[Bonus] Upsell Attempt'', IsBonus = 1\<rparr>"
  let ?plain = "\<lparr>QualityPointID = 2, QualityPointText = ''Greeting'', IsBonus = 0\<rparr>"
  have rows: "QualityPointsMaster (db (snd ?r)) = [?bonus, ?plain]" by code_simp
  have old: "QualityPointsMaster (db ?w) = []" by (simp add: new_world_def empty_db_def)
  have p: "?r = (fst ?r, snd ?r)" by simp
  have "IsBonus ?bonus = (if contains_ignoring_case ''[BONUS]'' (QualityPointText ?bonus) then 1 else 0)"
    by (rule new_quality_point_bonus_flag [OF p]) (simp_all add: rows old)
  then have b: "contains_ignoring_case ''[BONUS]'' ''[Bonus] Upsell Attempt''"
    by (simp split: if_splits)
  have "IsBonus ?plain = (if contains_ignoring_case ''[BONUS]'' (QualityPointText ?plain) then 1 else 0)"
    by (rule new_quality_point_bonus_flag [OF p]) (simp_all add: rows old)
  then have n: "\<not> contains_ignoring_case ''[BONUS]'' ''Greeting''"
    by (simp split: if_splits)
  from rows old b n show ?thesis by simp
qed

subsection \<open>One processing timestamp for a run\<close>

lemma invariant_handle_failure:
  assumes "invariant P rollback" and "\<And>f p. invariant P (move f p)"
  shows "invariant P (handle_failure ph e file)"
proof -
  have "P (snd (handle_failure ph e file w))" if p: "P w" for w
  proof (cases "rollback w")
    case (Pair r w1)
    from invariantD [OF assms(1) p Pair] have p1: "P w1" .
    show ?thesis
    proof (cases r)
      case (Inl e')
      with Pair p1 show ?thesis by (simp add: handle_failure_def)
    next
      case (Inr u)
      from assms(2) p1 have "P (snd (move file FAILED_PREFIX w1))" by (simp add: invariant_def)
      with Pair Inr show ?thesis by (simp add: handle_failure_def)
    qed
  qed
  then show ?thesis by (simp add: invariant_def)
qed

lemma invariant_process_file:
  assumes k: "kept_by_statements ts P" and c: "invariant P commit"
    and r: "invariant P rollback" and m: "\<And>f p. invariant P (move f p)"
  shows "invariant P (process_file ts ext_map file)"
proof -
  have h: "invariant P (handle_failure ph e file)" for ph e
    by (rule invariant_handle_failure [OF r m])
  have d: "invariant P (import_document ts ext_map file ext)" for ext
    unfolding import_document_def by (intro invariant_bind invariant_import_rows k c)
  have "P (snd (process_file ts ext_map file w))" if p: "P w" for w
  proof (cases "extract_extension_from_path (path_join (fst file) (snd file))")
    case None
    with p show ?thesis by (simp add: process_file_def)
  next
    case (Some ext)
    show ?thesis
    proof (cases "import_document ts ext_map file ext w")
      case (Pair res w1)
      from invariantD [OF d p Pair] have p1: "P w1" .
      show ?thesis
      proof (cases res)
        case (Inl e)
        with Pair Some h [of Importing e] p1 show ?thesis
          by (simp add: process_file_def invariant_def)
      next
        case (Inr u)
        show ?thesis
        proof (cases "move file PROCESSED_PREFIX w1")
          case mv: (Pair res2 w2)
          from invariantD [OF m p1 mv] have p2: "P w2" .
          show ?thesis
          proof (cases res2)
            case (Inl e)
            with mv Pair Inr Some h [of Renaming e] p2 show ?thesis
              by (simp add: process_file_def invariant_def)
          next
            case inr2: (Inr u2)
            with mv Pair Inr Some p2 show ?thesis by (simp add: process_file_def)
          qed
        qed
      qed
    qed
  qed
  then show ?thesis by (simp add: invariant_def)
qed

lemma invariant_process_files:
  assumes "\<And>file. invariant P (process_file ts ext_map file)"
  shows "invariant P (process_files ts ext_map todo)"
proof -
  have "P w \<Longrightarrow> P (snd (process_files ts ext_map todo w))" for w
  proof (induction todo arbitrary: w)
    case Nil
    then show ?case by simp
  next
    case (Cons f1 rest)
    obtain out w1 where f: "process_file ts ext_map f1 w = (out, w1)"
      by (cases "process_file ts ext_map f1 w")
    from invariantD [OF assms Cons.prems f] have p1: "P w1" .
    show ?case
    proof (cases "\<exists>ph e. out = Aborted ph e")
      case True
      with f p1 show ?thesis by auto
    next
      case False
      obtain outs w2 where r: "process_files ts ext_map rest w1 = (outs, w2)"
        by (cases "process_files ts ext_map rest w1")
      from Cons.IH [OF p1] r have "P w2" by simp
      with False f r show ?thesis by (cases out) auto
    qed
  qed
  then show ?thesis by (simp add: invariant_def)
qed

lemma kept_stamped: "kept_by_statements ts (stamped ts I C)"
  unfolding kept_by_statements_def
  by (auto simp: invariant_def stamped_def perform_def Let_def
      select_agent_def insert_agent_def select_quality_points_def insert_quality_points_def
      insert_individual_def insert_evaluation_items_def insert_combined_def insert_strengths_def
      insert_development_areas_def insert_coaching_focus_def insert_coaching_actions_def
      insert_quality_point_details_def read_json_def split: option.splits)

lemma stamped_others:
  "invariant (stamped ts I C) commit" "invariant (stamped ts I C) rollback"
  "invariant (stamped ts I C) (move f p)"
  by (auto simp: invariant_def stamped_def perform_def Let_def commit_def rollback_def move_def
      split: option.splits)

text \<open>
  Claim C7. The timestamp is read once, when the connection is made and before the
  first file. Every analysis that a run of \<^verbatim>\<open>process_folder\<close> stores, individual or
  combined, carries that reading, however far the clock has moved since.
\<close>

theorem one_timestamp_per_run:
  assumes "process_folder ext_map w = (outs, w')"
  shows "(\<forall>r \<in> set (IndividualCallAnalyses (committed w')).
            r \<in> set (IndividualCallAnalyses (committed w)) \<or> ia_ProcessingDateTime r = Suc (clock w))
       \<and> (\<forall>r \<in> set (CombinedAnalyses (committed w')).
            r \<in> set (CombinedAnalyses (committed w)) \<or> ca_ProcessingDateTime r = Suc (clock w))"
proof (cases "files_to_process (files w) = []")
  case True
  with assms show ?thesis by (simp add: process_folder_def)
next
  case False
  let ?I = "set (IndividualCallAnalyses (committed w))"
  let ?C = "set (CombinedAnalyses (committed w))"
  show ?thesis
  proof (cases "faults w (clock w)")
    case (Some e)
    with False assms have "committed w' = committed w"
      by (auto simp: process_folder_def get_db_connection_def perform_def Let_def)
    then show ?thesis by simp
  next
    case None
    let ?w1 = "w\<lparr>clock := Suc (clock w), trace := trace w @ [Connect], db := committed w\<rparr>"
    have c: "get_db_connection w = (Inr (), ?w1)"
      using None by (simp add: get_db_connection_def perform_def Let_def)
    obtain w2 where l: "process_files (Suc (clock w)) ext_map (files_to_process (files w)) ?w1
                          = (outs, w2)" and w': "w' = close w2"
      using assms False c by (auto simp: process_folder_def Let_def split: prod.splits)
    have s1: "stamped (Suc (clock w)) ?I ?C ?w1" by (simp add: stamped_def)
    have "invariant (stamped (Suc (clock w)) ?I ?C)
            (process_files (Suc (clock w)) ext_map (files_to_process (files w)))"
      by (intro invariant_process_files invariant_process_file kept_stamped stamped_others)
    from invariantD [OF this s1 l] have "stamped (Suc (clock w)) ?I ?C w2" .
    with w' show ?thesis by (simp add: stamped_def close_def)
  qed
qed

theorem one_timestamp_per_run_witness:
  "fst (process_folder Map.empty two_reports) = [Stored, Stored]
   \<and> length (IndividualCallAnalyses (committed (snd (process_folder Map.empty two_reports)))) = 1
   \<and> length (CombinedAnalyses (committed (snd (process_folder Map.empty two_reports)))) = 1
   \<and> list_all (\<lambda>r. ia_ProcessingDateTime r = 1)
        (IndividualCallAnalyses (committed (snd (process_folder Map.empty two_reports))))
   \<and> list_all (\<lambda>r. ca_ProcessingDateTime r = 1)
        (CombinedAnalyses (committed (snd (process_folder Map.empty two_reports))))
   \<and> clock (snd (process_folder Map.empty two_reports)) = 21"
proof -
  let ?r = "process_folder Map.empty two_reports"
  have o: "fst ?r = [Stored, Stored]" by code_simp
  have i: "length (IndividualCallAnalyses (committed (snd ?r))) = 1" by code_simp
  have c: "length (CombinedAnalyses (committed (snd ?r))) = 1" by code_simp
  have k: "clock (snd ?r) = 21" by code_simp
  have w: "committed two_reports = empty_db" "clock two_reports = 0"
    by (simp_all add: two_reports_def new_world_def)
  have "?r = (fst ?r, snd ?r)" by simp
  from one_timestamp_per_run [OF this] w
  have "list_all (\<lambda>r. ia_ProcessingDateTime r = 1) (IndividualCallAnalyses (committed (snd ?r)))
      \<and> list_all (\<lambda>r. ca_ProcessingDateTime r = 1) (CombinedAnalyses (committed (snd ?r)))"
    by (simp add: empty_db_def list_all_iff)
  with o i c k show ?thesis by simp
qed

subsection \<open>Discovery\<close>

lemma files_to_process_unmarked:
  "file \<in> set (files_to_process walk) \<Longrightarrow>
     \<not> startswith (snd file) PROCESSED_PREFIX \<and> \<not> startswith (snd file) FAILED_PREFIX"
  by (auto simp: files_to_process_def)

lemma files_to_process_subset: "set (files_to_process walk) \<subseteq> fst ` set walk"
  by (auto simp: files_to_process_def)

lemma handle_failure_not_skipped: "fst (handle_failure ph e file w) \<noteq> Skipped"
  by (auto simp: handle_failure_def split: prod.splits sum.splits)

lemma process_file_skipped:
  assumes "process_file ts ext_map file w = (Skipped, w')"
  shows "w' = w"
proof (cases "extract_extension_from_path (path_join (fst file) (snd file))")
  case None
  with assms show ?thesis by (simp add: process_file_def)
next
  case (Some ext)
  have False
  proof (cases "import_document ts ext_map file ext w")
    case (Pair r w1)
    show False
    proof (cases r)
      case (Inl e)
      with Pair Some assms handle_failure_not_skipped [of Importing e "file" w1]
      show False by (simp add: process_file_def)
    next
      case (Inr u)
      show False
      proof (cases "move file PROCESSED_PREFIX w1")
        case mv: (Pair r2 w2)
        show False
        proof (cases r2)
          case (Inl e)
          with mv Pair Inr Some assms handle_failure_not_skipped [of Renaming e "file" w2]
          show False by (simp add: process_file_def)
        next
          case inr2: (Inr u2)
          with mv Pair Inr Some assms show False by (simp add: process_file_def)
        qed
      qed
    qed
  qed
  then show ?thesis ..
qed

lemma process_files_skipped:
  "process_files ts ext_map todo w = (outs, w') \<Longrightarrow> set outs \<subseteq> {Skipped} \<Longrightarrow> w' = w"
proof (induction todo arbitrary: w outs w')
  case Nil
  then show ?case by simp
next
  case (Cons f rest)
  obtain out w1 where p: "process_file ts ext_map f w = (out, w1)"
    by (cases "process_file ts ext_map f w")
  obtain outs2 w2 where r: "process_files ts ext_map rest w1 = (outs2, w2)"
    by (cases "process_files ts ext_map rest w1")
  from Cons.prems p r have o: "out = Skipped" by (cases out) auto
  with Cons.prems p r have "outs = Skipped # outs2" "w' = w2" by auto
  with Cons.prems(2) Cons.IH [OF r] have "w2 = w1" by simp
  with o p process_file_skipped \<open>w' = w2\<close> show ?case by blast
qed

lemma process_folder_skipped:
  assumes "process_folder ext_map w = (outs, w')" and "set outs \<subseteq> {Skipped}"
  shows "files w' = files w"
proof (cases "files_to_process (files w) = []")
  case True
  with assms show ?thesis by (simp add: process_folder_def)
next
  case False
  show ?thesis
  proof (cases "get_db_connection w")
    case (Pair r w1)
    then have f1: "files w1 = files w"
      by (auto simp: get_db_connection_def perform_def Let_def split: option.splits)
    show ?thesis
    proof (cases r)
      case (Inl e)
      with Pair False assms f1 show ?thesis by (auto simp: process_folder_def)
    next
      case (Inr u)
      obtain w2 where l: "process_files (clock w1) ext_map (files_to_process (files w)) w1 = (outs, w2)"
        and w': "w' = close w2"
        using assms(1) False Pair Inr by (auto simp: process_folder_def Let_def split: prod.splits)
      from process_files_skipped [OF l assms(2)] w' f1 show ?thesis by (simp add: close_def)
    qed
  qed
qed

lemma move_renames:
  assumes "move file prefix w = (Inr (), w')" and "prefix \<noteq> []"
  shows "file \<notin> fst ` set (files w')"
proof -
  have ne: "(fst file, prefix @ snd file) \<noteq> file"
    using assms(2) by (cases "file") auto
  from assms(1) have
    "files w' = map (\<lambda>(f, c). if f = file then ((fst file, prefix @ snd file), c) else (f, c))
                  (filter (\<lambda>(f, c). f \<noteq> (fst file, prefix @ snd file)) (files w))"
    by (auto simp: move_def perform_def Let_def split: option.splits)
  with ne show ?thesis by (auto split: if_splits)
qed

text \<open>
  Claim C6. Discovery reads the folder and changes nothing, and it never lists a file
  whose name starts with \<^verbatim>\<open>Stored-\<close> or \<^verbatim>\<open>BadData-\<close>. So a run that imports nothing
  (no connection, or every file skipped) leaves the next run the same candidates; and
  once a file has been renamed with either prefix, neither its old name nor its new one
  is a candidate again.
\<close>

theorem discovery_idempotent:
  "(\<forall>file \<in> set (files_to_process walk).
       \<not> startswith (snd file) PROCESSED_PREFIX \<and> \<not> startswith (snd file) FAILED_PREFIX)
   \<and> (\<forall>outs w'. process_folder ext_map w = (outs, w') \<and> set outs \<subseteq> {Skipped}
         \<longrightarrow> files_to_process (files w') = files_to_process (files w))
   \<and> (\<forall>file prefix w'. move file prefix w = (Inr (), w')
           \<and> (prefix = PROCESSED_PREFIX \<or> prefix = FAILED_PREFIX)
         \<longrightarrow> file \<notin> set (files_to_process (files w'))
             \<and> (fst file, prefix @ snd file) \<notin> set (files_to_process (files w')))"
proof (intro conjI ballI allI impI)
  fix f assume "f \<in> set (files_to_process walk)"
  then show "\<not> startswith (snd f) PROCESSED_PREFIX" by (simp add: files_to_process_unmarked)
next
  fix f assume "f \<in> set (files_to_process walk)"
  then show "\<not> startswith (snd f) FAILED_PREFIX" by (simp add: files_to_process_unmarked)
next
  fix outs w' assume "process_folder ext_map w = (outs, w') \<and> set outs \<subseteq> {Skipped}"
  then have "files w' = files w" by (blast intro: process_folder_skipped)
  then show "files_to_process (files w') = files_to_process (files w)" by simp
next
  fix f prefix w'
  assume a: "move f prefix w = (Inr (), w') \<and> (prefix = PROCESSED_PREFIX \<or> prefix = FAILED_PREFIX)"
  then have "prefix \<noteq> []" by (auto simp: PROCESSED_PREFIX_def FAILED_PREFIX_def)
  with a move_renames have "f \<notin> fst ` set (files w')" by blast
  with files_to_process_subset show "f \<notin> set (files_to_process (files w'))" by blast
next
  fix f prefix w'
  assume a: "move f prefix w = (Inr (), w') \<and> (prefix = PROCESSED_PREFIX \<or> prefix = FAILED_PREFIX)"
  then have "startswith (snd (fst f, prefix @ snd f)) PROCESSED_PREFIX
             \<or> startswith (snd (fst f, prefix @ snd f)) FAILED_PREFIX"
    by (auto simp: startswith_def)
  with files_to_process_unmarked
  show "(fst f, prefix @ snd f) \<notin> set (files_to_process (files w'))" by blast
qed

theorem discovery_idempotent_witness:
  "files_to_process (files (second_run (fail_at 0 OperationalError))) = [call1]
   \<and> fst (process_folder Map.empty (second_run (fail_at 0 OperationalError))) = []
   \<and> files_to_process (files (snd (process_folder Map.empty
          (second_run (fail_at 0 OperationalError))))) = [call1]
   \<and> \<not> startswith (snd call1) PROCESSED_PREFIX
   \<and> \<not> startswith (snd call1) FAILED_PREFIX
   \<and> fst (move call1 FAILED_PREFIX (second_run no_fault)) = Inr ()
   \<and> call1 \<notin> set (files_to_process
          (files (snd (move call1 FAILED_PREFIX (second_run no_fault)))))
   \<and> (fst call1, FAILED_PREFIX @ snd call1) \<notin> set (files_to_process
          (files (snd (move call1 FAILED_PREFIX (second_run no_fault)))))"
proof -
  let ?w = "second_run (fail_at 0 OperationalError)"
  let ?r = "process_folder Map.empty ?w"
  let ?v = "second_run no_fault"
  let ?m = "move call1 FAILED_PREFIX ?v"
  have c: "files_to_process (files ?w) = [call1]" by code_simp
  have o: "fst ?r = []" by code_simp
  have mv: "fst ?m = Inr ()" by code_simp
  have r: "?r = ([], snd ?r)" using o by (simp add: prod_eq_iff)
  have m: "?m = (Inr (), snd ?m)" using mv by (simp add: prod_eq_iff)
  note t = discovery_idempotent [where walk = "files ?w" and ext_map = Map.empty and w = ?w]
  note u = discovery_idempotent [where walk = "files ?w" and ext_map = Map.empty and w = ?v]
  from t c have a: "\<not> startswith (snd call1) PROCESSED_PREFIX \<and> \<not> startswith (snd call1) FAILED_PREFIX"
    by simp
  from t r have b: "files_to_process (files (snd ?r)) = files_to_process (files ?w)"
    by (metis empty_set empty_subsetI)
  from u m have d: "call1 \<notin> set (files_to_process (files (snd ?m)))
      \<and> (fst call1, FAILED_PREFIX @ snd call1) \<notin> set (files_to_process (files (snd ?m)))"
    by blast
  from a b c d o mv show ?thesis by simp
qed

subsection \<open>An insert of an agent that fails\<close>




subsection \<open>An extension that the roster does not list\<close>

text \<open>
  The claim C10 as stated, that the import goes on by creating the agent's row, fails
  for an extension that the store already knows: the stored key is used and no row is
  created.
\<close>

theorem unrostered_agent_created_counterexample:
  "(Map.empty :: string \<rightharpoonup> agent_details) ''1001'' = None
   \<and> extract_extension_from_path (path_join (fst call1) (snd call1)) = Some ''1001''
   \<and> fst (process_file 0 Map.empty call1 known_agent_world) = Stored
   \<and> Agents (committed (snd (process_file 0 Map.empty call1 known_agent_world))) = [known_agent]
   \<and> AgentName known_agent \<noteq> ''Un-rostered Agent - 1001''"
  by code_simp

text \<open>
  Claim C10, amended. For an extension that the roster does not list, the details are
  the name \<^verbatim>\<open>Un-rostered Agent - <extension>\<close>, no address and the extension, and the
  resolver gives a key rather than failing: the key of the stored agent with that
  extension when there is one, nothing being created, and otherwise the key of a new
  row with those details.
\<close>

theorem unrostered_agent_resolved:
  assumes "ext_map ext = None" and "ext \<noteq> []"
    and "faults w (clock w) = None" and "faults w (Suc (clock w)) = None"
  shows "agent_details_for ext_map ext
           = \<lparr>full_name = ''Un-rostered Agent - '' @ ext, email = None, extension = ext\<rparr>
       \<and> (case find (\<lambda>r. Extension r = ext) (Agents (db w)) of
            Some r \<Rightarrow>
              fst (get_or_create_agent (agent_details_for ext_map ext) w) = Inr (Some (AgentID r))
              \<and> Agents (db (snd (get_or_create_agent (agent_details_for ext_map ext) w)))
                  = Agents (db w)
          | None \<Rightarrow>
              fst (get_or_create_agent (agent_details_for ext_map ext) w) = Inr (Some (next_id w))
              \<and> Agents (db (snd (get_or_create_agent (agent_details_for ext_map ext) w)))
                  = Agents (db w) @
                    [\<lparr>AgentID = next_id w, AgentName = ''Un-rostered Agent - '' @ ext,
                      EmailAddress = None, Extension = ext\<rparr>])"
  using assms
  by (simp add: agent_details_for_def get_or_create_agent_def select_agent_def insert_agent_def
      io_bind_def perform_def return_def Let_def split: option.splits)

theorem unrostered_agent_resolved_witness:
  "fst (get_or_create_agent (agent_details_for Map.empty ''1001'') (new_world [] no_fault))
     = Inr (Some 1)
   \<and> Agents (db (snd (get_or_create_agent (agent_details_for Map.empty ''1001'')
         (new_world [] no_fault))))
     = [\<lparr>AgentID = 1, AgentName = ''Un-rostered Agent - 1001'', EmailAddress = None,
         Extension = ''1001''\<rparr>]
   \<and> fst (get_or_create_agent (agent_details_for Map.empty ''1001'') known_agent_world)
     = Inr (Some 7)
   \<and> Agents (db (snd (get_or_create_agent (agent_details_for Map.empty ''1001'')
         known_agent_world))) = [known_agent]"
proof -
  let ?d = "agent_details_for Map.empty ''1001''"
  let ?v = "new_world [] no_fault"
  have e: "(Map.empty :: string \<rightharpoonup> agent_details) ''1001'' = None" "''1001'' \<noteq> []"
    by simp_all
  have v: "faults ?v (clock ?v) = None" "faults ?v (Suc (clock ?v)) = None"
    by (simp_all add: new_world_def no_fault_def)
  have vf: "find (\<lambda>r. Extension r = ''1001'') (Agents (db ?v)) = None"
    and vn: "next_id ?v = 1" and va: "Agents (db ?v) = []"
    by (simp_all add: new_world_def empty_db_def)
  from unrostered_agent_resolved [OF e v, THEN conjunct2]
  have a: "fst (get_or_create_agent ?d ?v) = Inr (Some 1)
         \<and> Agents (db (snd (get_or_create_agent ?d ?v)))
             = [\<lparr>AgentID = 1, AgentName = ''Un-rostered Agent - 1001'', EmailAddress = None,
                 Extension = ''1001''\<rparr>]"
    unfolding vf vn va by simp
  have k: "faults known_agent_world (clock known_agent_world) = None"
    "faults known_agent_world (Suc (clock known_agent_world)) = None"
    by (simp_all add: known_agent_world_def new_world_def no_fault_def)
  have kf: "find (\<lambda>r. Extension r = ''1001'') (Agents (db known_agent_world)) = Some known_agent"
    and ki: "AgentID known_agent = 7" and ka: "Agents (db known_agent_world) = [known_agent]"
    by (simp_all add: known_agent_world_def new_world_def empty_db_def known_agent_def)
  have ke: "Extension known_agent = ''1001''" by (simp add: known_agent_def)
  from unrostered_agent_resolved [OF e k, THEN conjunct2]
  have b: "fst (get_or_create_agent ?d known_agent_world) = Inr (Some 7)
         \<and> Agents (db (snd (get_or_create_agent ?d known_agent_world))) = [known_agent]"
    by (simp add: ka ke ki)
  from a b show ?thesis by simp
qed

subsection \<open>What the except clause does\<close>



lemma map_of_renamed:
  assumes "dst \<noteq> src"
  shows "map_of (map (\<lambda>(f, c). if f = src then (dst, c) else (f, c))
                  (filter (\<lambda>(f, c). f \<noteq> dst) xs)) dst = map_of xs src"
  using assms by (induction xs) auto

lemma move_marks:
  assumes "move file prefix w = (Inr (), w')" and "prefix \<noteq> []"
  shows "map_of (files w') (fst file, prefix @ snd file) = map_of (files w) file
       \<and> map_of (files w') file = None"
proof -
  have ne: "(fst file, prefix @ snd file) \<noteq> file"
    using assms(2) by (cases "file") auto
  from assms(1) have
    "files w' = map (\<lambda>(f, c). if f = file then ((fst file, prefix @ snd file), c) else (f, c))
                  (filter (\<lambda>(f, c). f \<noteq> (fst file, prefix @ snd file)) (files w))"
    by (auto simp: move_def perform_def Let_def split: option.splits)
  moreover from move_renames [OF assms] have "map_of (files w') file = None"
    by (simp add: map_of_eq_None_iff)
  ultimately show ?thesis using map_of_renamed [OF ne] by simp
qed


lemma move_present:
  assumes "map_of (files w) file = Some c" and "faults w (clock w) = None"
  shows "fst (move file prefix w) = Inr () \<and> clock (snd (move file prefix w)) = Suc (clock w)"
  using assms by (simp add: move_def perform_def Let_def)

lemma move_clock: "clock (snd (move file prefix w)) = Suc (clock w)"
  by (simp add: move_def perform_def Let_def split: option.splits)

lemma move_trace: "trace (snd (move file prefix w)) = trace w @ [Move file prefix]"
  by (simp add: move_def perform_def Let_def split: option.splits)

lemma handle_failure_cases:
  "case faults w (clock w) of
     Some e' \<Rightarrow>
       fst (handle_failure ph e file w) = Aborted ph e'
       \<and> committed (snd (handle_failure ph e file w)) = committed w
   | None \<Rightarrow>
       fst (handle_failure ph e file w) = Failed ph e
       \<and> trace (snd (handle_failure ph e file w)) = trace w @ [Rollback, Move file FAILED_PREFIX]
       \<and> db (snd (handle_failure ph e file w)) = committed w
       \<and> committed (snd (handle_failure ph e file w)) = committed w
       \<and> (\<forall>c. map_of (files w) file = Some c \<and> faults w (Suc (clock w)) = None
             \<longrightarrow> map_of (files (snd (handle_failure ph e file w)))
                   (fst file, FAILED_PREFIX @ snd file) = Some c
                 \<and> map_of (files (snd (handle_failure ph e file w))) file = None)"
proof (cases "faults w (clock w)")
  case (Some e')
  then show ?thesis by (simp add: handle_failure_def rollback_def perform_def Let_def)
next
  case None
  let ?w1 = "w\<lparr>clock := Suc (clock w), trace := trace w @ [Rollback], db := committed w\<rparr>"
  let ?h = "handle_failure ph e file w"
  from None have r: "rollback w = (Inr (), ?w1)" by (simp add: rollback_def perform_def Let_def)
  then have h: "?h = (Failed ph e, snd (move file FAILED_PREFIX ?w1))"
    by (simp add: handle_failure_def)
  have t: "trace (snd ?h) = trace w @ [Rollback, Move file FAILED_PREFIX]"
    by (simp add: h move_trace)
  have d: "db (snd ?h) = committed w" "committed (snd ?h) = committed w"
    by (simp_all add: h move_def perform_def Let_def split: option.splits)
  have m: "map_of (files (snd ?h)) (fst file, FAILED_PREFIX @ snd file) = Some c
           \<and> map_of (files (snd ?h)) file = None"
    if c: "map_of (files w) file = Some c" and f: "faults w (Suc (clock w)) = None" for c
  proof -
    from c f have "fst (move file FAILED_PREFIX ?w1) = Inr ()"
      by (intro move_present [THEN conjunct1]) simp_all
    with h have "move file FAILED_PREFIX ?w1 = (Inr (), snd ?h)" by (simp add: prod_eq_iff)
    from move_marks [OF this] c show ?thesis by (simp add: FAILED_PREFIX_def)
  qed
  from None h t d m show ?thesis by simp
qed



subsection \<open>Atomicity of an import\<close>

text \<open>
  Claim C1. Whenever the import of a document fails, that is, whenever anything in the
  \<^verbatim>\<open>try\<close> block from reading the file to the commit raises (a malformed document, a
  statement the store refuses, a lost connection), nothing of the document persists:
  what is committed when the exception is raised, and what is committed when the loop
  is done with the file, is what was committed before it. The \<^verbatim>\<open>except\<close> clause catches
  that very exception and rolls back, after which the connection sees exactly the
  committed rows; only when the rollback itself raises is the loop left, with nothing
  committed (closing the connection then drops the rest).
\<close>

theorem failed_import_leaves_no_row:
  assumes "extract_extension_from_path (path_join (fst file) (snd file)) = Some ext"
    and "import_document ts ext_map file ext w = (Inl e, w1)"
  shows "committed w1 = committed w
       \<and> committed (snd (process_file ts ext_map file w)) = committed w
       \<and> (case faults w (clock w1) of
            None \<Rightarrow>
              fst (process_file ts ext_map file w) = Failed Importing e
              \<and> db (snd (process_file ts ext_map file w)) = committed w
          | Some e' \<Rightarrow> fst (process_file ts ext_map file w) = Aborted Importing e')"
proof -
  from import_document_raises [OF assms(2)]
  have u: "committed w1 = committed w" "faults w1 = faults w" by (simp_all add: untouched_def)
  from assms have p: "process_file ts ext_map file w = handle_failure Importing e file w1"
    by (simp add: process_file_def)
  from handle_failure_cases [where w = w1 and ph = Importing and e = e and ?file = "file"] u show ?thesis
    unfolding p by (cases "faults w (clock w1)") simp_all
qed

theorem failed_import_leaves_no_row_witness:
  "fst (import_document 0 Map.empty call1 ''1001''
          (new_world [(call1, Inr call1_doc)] (fail_at 7 OperationalError)))
     = Inl OperationalError
   \<and> length (IndividualCallAnalyses (db (snd (import_document 0 Map.empty call1 ''1001''
          (new_world [(call1, Inr call1_doc)] (fail_at 7 OperationalError)))))) = 1
   \<and> fst (process_file 0 Map.empty call1
          (new_world [(call1, Inr call1_doc)] (fail_at 7 OperationalError)))
     = Failed Importing OperationalError
   \<and> committed (snd (process_file 0 Map.empty call1
          (new_world [(call1, Inr call1_doc)] (fail_at 7 OperationalError)))) = empty_db
   \<and> db (snd (process_file 0 Map.empty call1
          (new_world [(call1, Inr call1_doc)] (fail_at 7 OperationalError)))) = empty_db
   \<and> fst (import_document 0 Map.empty call1 ''1001''
          (new_world [(call1, Inr null_label_doc)] no_fault))
     = Inl AttributeError
   \<and> length (IndividualCallAnalyses (db (snd (import_document 0 Map.empty call1 ''1001''
          (new_world [(call1, Inr null_label_doc)] no_fault))))) = 1
   \<and> fst (process_file 0 Map.empty call1 (new_world [(call1, Inr null_label_doc)] no_fault))
     = Failed Importing AttributeError
   \<and> committed (snd (process_file 0 Map.empty call1
          (new_world [(call1, Inr null_label_doc)] no_fault))) = empty_db
   \<and> db (snd (process_file 0 Map.empty call1
          (new_world [(call1, Inr null_label_doc)] no_fault))) = empty_db
   \<and> fst (process_file 0 Map.empty call1
          (new_world [(call1, Inr call1_doc)] (lost_from 7 OperationalError)))
     = Aborted Importing OperationalError
   \<and> committed (snd (process_file 0 Map.empty call1
          (new_world [(call1, Inr call1_doc)] (lost_from 7 OperationalError)))) = empty_db"
proof -
  let ?w = "new_world [(call1, Inr call1_doc)] (fail_at 7 OperationalError)"
  let ?i = "import_document 0 Map.empty call1 ''1001'' ?w"
  let ?v = "new_world [(call1, Inr null_label_doc)] no_fault"
  let ?j = "import_document 0 Map.empty call1 ''1001'' ?v"
  let ?u = "new_world [(call1, Inr call1_doc)] (lost_from 7 OperationalError)"
  let ?k = "import_document 0 Map.empty call1 ''1001'' ?u"
  have x: "extract_extension_from_path (path_join (fst call1) (snd call1)) = Some ''1001''"
    by code_simp
  have fi: "fst ?i = Inl OperationalError" by code_simp
  have ri: "length (IndividualCallAnalyses (db (snd ?i))) = 1" by code_simp
  have ki: "clock (snd ?i) = 8" by code_simp
  have ci: "committed ?w = empty_db" by (simp add: new_world_def)
  have gi: "faults ?w (clock (snd ?i)) = None"
    unfolding ki by (simp add: new_world_def fail_at_def)
  have "?i = (Inl OperationalError, snd ?i)" using fi by (simp add: prod_eq_iff)
  from failed_import_leaves_no_row [OF x this]
  have a: "committed (snd (process_file 0 Map.empty call1 ?w)) = empty_db
         \<and> fst (process_file 0 Map.empty call1 ?w) = Failed Importing OperationalError
         \<and> db (snd (process_file 0 Map.empty call1 ?w)) = empty_db"
    unfolding gi ci by simp
  have fj: "fst ?j = Inl AttributeError" by code_simp
  have rj: "length (IndividualCallAnalyses (db (snd ?j))) = 1" by code_simp
  have kj: "clock (snd ?j) = 4" by code_simp
  have cj: "committed ?v = empty_db" by (simp add: new_world_def)
  have gj: "faults ?v (clock (snd ?j)) = None"
    unfolding kj by (simp add: new_world_def no_fault_def)
  have "?j = (Inl AttributeError, snd ?j)" using fj by (simp add: prod_eq_iff)
  from failed_import_leaves_no_row [OF x this]
  have b: "committed (snd (process_file 0 Map.empty call1 ?v)) = empty_db
         \<and> fst (process_file 0 Map.empty call1 ?v) = Failed Importing AttributeError
         \<and> db (snd (process_file 0 Map.empty call1 ?v)) = empty_db"
    unfolding gj cj by simp
  have fk: "fst ?k = Inl OperationalError" by code_simp
  have kk: "clock (snd ?k) = 8" by code_simp
  have ck: "committed ?u = empty_db" by (simp add: new_world_def)
  have gk: "faults ?u (clock (snd ?k)) = Some OperationalError"
    unfolding kk by (simp add: new_world_def lost_from_def)
  have "?k = (Inl OperationalError, snd ?k)" using fk by (simp add: prod_eq_iff)
  from failed_import_leaves_no_row [OF x this]
  have c: "committed (snd (process_file 0 Map.empty call1 ?u)) = empty_db
         \<and> fst (process_file 0 Map.empty call1 ?u) = Aborted Importing OperationalError"
    unfolding gk ck by simp
  from fi ri a fj rj b c show ?thesis by simp
qed

subsection \<open>Failures stay with their document\<close>




subsection \<open>Labels with white space\<close>

text \<open>
  Claim C2 fails on the code. The resolver gives the key of a label under the label as
  the document writes it, and the two importers look the key up under the stripped
  label. For an item whose label is \<^verbatim>\<open>" Tone "\<close> the resolver creates the quality point
  and returns its key, and the item is dropped all the same: the document is stored
  with no evaluation item.
\<close>

theorem padded_label_item_dropped:
  "all_quality_points padded_doc = Inr [JStr '' Tone '']
   \<and> fst (get_or_create_quality_points [JStr '' Tone ''] (new_world [] no_fault))
       = Inr [('' Tone '', 1)]
   \<and> lookup_quality_point [('' Tone '', 1)]
        (JDict [(''quality_point'', JStr '' Tone ''), (''finding'', JStr ''Positive'')])
       = Inr None
   \<and> fst (process_file 0 Map.empty call1 (new_world [(call1, Inr padded_doc)] no_fault)) = Stored
   \<and> QualityPointsMaster (committed (snd (process_file 0 Map.empty call1
          (new_world [(call1, Inr padded_doc)] no_fault))))
       = [\<lparr>QualityPointID = 2, QualityPointText = ''Tone'', IsBonus = 0\<rparr>]
   \<and> length (IndividualCallAnalyses (committed (snd (process_file 0 Map.empty call1
          (new_world [(call1, Inr padded_doc)] no_fault))))) = 1
   \<and> IndividualEvaluationItems (committed (snd (process_file 0 Map.empty call1
          (new_world [(call1, Inr padded_doc)] no_fault)))) = []"
  by code_simp

text \<open>
  Claim C5 fails on the code. The resolver drops the empty label before it strips the
  labels, not after: a label of white space only passes, is stripped to the empty text,
  and a quality point with the empty text is created and its key returned. (That two
  labels equal after stripping share one key and one row holds.)
\<close>

theorem blank_label_creates_row:
  "sanitize [JStr ''  ''] = Inr [[]]
   \<and> fst (get_or_create_quality_points [JStr ''  ''] (new_world [] no_fault)) = Inr [(''  '', 1)]
   \<and> QualityPointsMaster (db (snd (get_or_create_quality_points [JStr ''  '']
          (new_world [] no_fault))))
       = [\<lparr>QualityPointID = 1, QualityPointText = [], IsBonus = 0\<rparr>]
   \<and> fst (process_file 0 Map.empty call1 (new_world [(call1, Inr blank_doc)] no_fault)) = Stored
   \<and> QualityPointsMaster (committed (snd (process_file 0 Map.empty call1
          (new_world [(call1, Inr blank_doc)] no_fault))))
       = [\<lparr>QualityPointID = 2, QualityPointText = [], IsBonus = 0\<rparr>]
   \<and> fst (get_or_create_quality_points [JStr ''Tone'', JStr '' Tone ''] (new_world [] no_fault))
       = Inr [(''Tone'', 1), ('' Tone '', 1)]
   \<and> length (QualityPointsMaster (db (snd (get_or_create_quality_points
          [JStr ''Tone'', JStr '' Tone ''] (new_world [] no_fault))))) = 1"
  by code_simp

end
